theory Spec2Isabelle
  imports Main "HOL-Library.Sublist"
begin

section \<open>Strings of the host language\<close>

text \<open>
  The extension is TypeScript. Its strings are modelled as \<^typ>\<open>string\<close>, a list of
  8-bit characters read as the code units U+0000 to U+00FF. The string methods the
  sources call (\<^verbatim>\<open>trim\<close>, \<^verbatim>\<open>toLowerCase\<close>, \<^verbatim>\<open>toUpperCase\<close>,
  \<^verbatim>\<open>split\<close>, \<^verbatim>\<open>join\<close>, \<^verbatim>\<open>startsWith\<close>, \<^verbatim>\<open>includes\<close>) belong to the
  language, not to the repository; they are written out here on that range.
\<close>

definition isWhiteSpace :: "char \<Rightarrow> bool" where
  \<comment> \<open>WhiteSpace and LineTerminator of ECMAScript below U+0100:
      TAB, LF, VT, FF, CR, SP, NBSP.\<close>
  "isWhiteSpace c \<longleftrightarrow>
     c \<in> set [CHR 0x09, CHR 0x0A, CHR 0x0B, CHR 0x0C, CHR 0x0D, CHR 0x20, CHR 0xA0]"

definition trim :: "string \<Rightarrow> string" where
  "trim s = rev (dropWhile isWhiteSpace (rev (dropWhile isWhiteSpace s)))"

definition lowerChar :: "char \<Rightarrow> char" where
  \<comment> \<open>A-Z, and the Latin-1 capitals U+00C0 to U+00DE without the multiplication sign.\<close>
  "lowerChar c =
     (let n = (of_char c :: nat)
      in if (65 \<le> n \<and> n \<le> 90) \<or> (192 \<le> n \<and> n \<le> 222 \<and> n \<noteq> 215)
         then char_of (n + 32) else c)"

definition toLowerCase :: "string \<Rightarrow> string" where
  "toLowerCase s = map lowerChar s"

definition startsWith :: "string \<Rightarrow> string \<Rightarrow> bool" where
  "startsWith s p \<longleftrightarrow> take (length p) s = p"

fun includesStr :: "string \<Rightarrow> string \<Rightarrow> bool" where
  "includesStr [] p = (p = [])"
| "includesStr (c # cs) p = (take (length p) (c # cs) = p \<or> includesStr cs p)"

fun join :: "string \<Rightarrow> string list \<Rightarrow> string" where
  "join sep [] = []"
| "join sep [x] = x"
| "join sep (x # y # ys) = x @ sep @ join sep (y # ys)"

section \<open>Difficulty normalizer\<close>

text \<open>
  \<^verbatim>\<open>normalizeDifficulty\<close> is declared twice, in the content script and inside the
  function the service worker injects into the page, with the same body:
  \<^verbatim>\<open>
  const normalizeDifficulty = (value: string | undefined | null) => {
    if (!value) return 'Medium';
    const normalized = value.trim();
    if (normalized === 'Easy' || normalized === 'Medium' || normalized === 'Hard') {
      return normalized;
    }
    return 'Medium';
  };
  \<close>
  \<^verbatim>\<open>null\<close> and \<^verbatim>\<open>undefined\<close> are \<^term>\<open>None\<close>; the empty string is the only falsy
  string.
\<close>

datatype Difficulty = Easy | Medium | Hard

fun difficultyLabel :: "Difficulty \<Rightarrow> string" where
  "difficultyLabel Easy = ''Easy''"
| "difficultyLabel Medium = ''Medium''"
| "difficultyLabel Hard = ''Hard''"

definition normalizeDifficulty :: "string option \<Rightarrow> Difficulty" where
  "normalizeDifficulty v =
     (case v of
        None \<Rightarrow> Medium
      | Some s \<Rightarrow>
          if s = [] then Medium
          else let normalized = trim s
               in if normalized = ''Easy'' then Easy
                  else if normalized = ''Medium'' then Medium
                  else if normalized = ''Hard'' then Hard
                  else Medium)"


section \<open>Streaming chat client\<close>

text \<open>
  \<^verbatim>\<open>streamChatRequest\<close> of \<^verbatim>\<open>lib/api/client.ts\<close>. The declarations of
  \<^verbatim>\<open>ChatResponse\<close> and \<^verbatim>\<open>SourceDocument\<close> are in the repository's types file.
  A field that may be absent at run time (the code reads each one through
  \<^verbatim>\<open>??\<close>) is an option.
\<close>

record SourceDocument =
  docTitle :: string
  snippet :: string
  metadata :: "(string \<times> string) list"

record ChatResponse =
  success :: "bool option"
  answer :: "string option"
  summary :: "string option"
  sources :: "SourceDocument list option"
  error :: "string option"

text \<open>
  Modelled from the spec: the declaration of \<^verbatim>\<open>ChatStreamEvent\<close> is missing from the
  sources. The spec lists the six variants of the tagged union; the field names are the
  ones \<^verbatim>\<open>streamChatRequest\<close> and the side panel's handler read
  (\<^verbatim>\<open>event.token\<close>, \<^verbatim>\<open>event.sources\<close>, \<^verbatim>\<open>event.summary\<close>,
  \<^verbatim>\<open>event.payload\<close>, \<^verbatim>\<open>event.error\<close>).
\<close>

datatype ChatStreamEvent =
    Token string
  | Sources "SourceDocument list"
  | Summary string
  | End ChatResponse
  | Cached ChatResponse
  | ErrorEvent "string option"

text \<open>
  What the function throws: the \<^verbatim>\<open>SyntaxError\<close> of \<^verbatim>\<open>JSON.parse\<close>, or
  \<^verbatim>\<open>new Error(message)\<close>.
\<close>

datatype Thrown = SyntaxError | JsError string

definition normalizeChatResponse :: "ChatResponse \<Rightarrow> ChatResponse" where
  "normalizeChatResponse payload =
     \<lparr> success = Some (case success payload of None \<Rightarrow> True | Some b \<Rightarrow> b),
       answer = Some (case answer payload of None \<Rightarrow> [] | Some a \<Rightarrow> a),
       summary = Some (case summary payload of None \<Rightarrow> [] | Some a \<Rightarrow> a),
       sources = Some (case sources payload of None \<Rightarrow> [] | Some a \<Rightarrow> a),
       error = error payload \<rparr>"

text \<open>
  \<^verbatim>\<open>String.prototype.split('\n')\<close>: the pieces between line feeds; the result is
  never empty, and its last piece is what follows the last line feed.
\<close>

fun split_nl :: "string \<Rightarrow> string list" where
  "split_nl [] = [[]]"
| "split_nl (c # cs) =
     (if c = CHR 0x0A then [] # split_nl cs
      else (case split_nl cs of [] \<Rightarrow> [[c]] | l # ls \<Rightarrow> (c # l) # ls))"

text \<open>
  The local variable \<^verbatim>\<open>finalPayload\<close>, and the calls of the \<^verbatim>\<open>handleEvent\<close>
  callback made so far, in order.
\<close>

record StreamState =
  finalPayload :: "ChatResponse option"
  handled :: "ChatStreamEvent list"

definition initialState :: StreamState where
  "initialState = \<lparr> finalPayload = None, handled = [] \<rparr>"

text \<open>
  The body both the read loop and the flush after it run on a line that is not blank:
  \<^verbatim>\<open>
  const event = JSON.parse(line) as ChatStreamEvent;
  handleEvent(event);
  if (event.type === 'end' || event.type === 'cached') {
    finalPayload = normalizeChatResponse(event.payload);
  } else if (event.type === 'error') {
    throw new Error(event.error ?? 'Unknown error from stream.');
  }
  \<close>
  \<^verbatim>\<open>JSON.parse\<close> followed by the cast is the parameter \<open>parse\<close>: \<^term>\<open>None\<close> when it
  throws. The callback \<^verbatim>\<open>handleEvent\<close> is the caller's; it is taken not to throw,
  and a throw of the function carries the calls of \<^verbatim>\<open>handleEvent\<close> made before it.
\<close>

definition processEvent ::
  "(string \<Rightarrow> ChatStreamEvent option) \<Rightarrow> StreamState \<Rightarrow> string
     \<Rightarrow> (Thrown \<times> ChatStreamEvent list) + StreamState" where
  "processEvent parse st line =
     (case parse line of
        None \<Rightarrow> Inl (SyntaxError, handled st)
      | Some event \<Rightarrow>
          (let st1 = st\<lparr>handled := handled st @ [event]\<rparr>
           in case event of
                End payload \<Rightarrow> Inr (st1\<lparr>finalPayload := Some (normalizeChatResponse payload)\<rparr>)
              | Cached payload \<Rightarrow> Inr (st1\<lparr>finalPayload := Some (normalizeChatResponse payload)\<rparr>)
              | ErrorEvent msg \<Rightarrow>
                  Inl (JsError (case msg of None \<Rightarrow> ''Unknown error from stream.'' | Some m \<Rightarrow> m),
                       handled st1)
              | _ \<Rightarrow> Inr st1))"

definition processLine ::
  "(string \<Rightarrow> ChatStreamEvent option) \<Rightarrow> StreamState \<Rightarrow> string
     \<Rightarrow> (Thrown \<times> ChatStreamEvent list) + StreamState" where
  \<comment> \<open>\<^verbatim>\<open>if (!line.trim()) continue;\<close>\<close>
  "processLine parse st line =
     (if trim line = [] then Inr st else processEvent parse st line)"

fun processLines ::
  "(string \<Rightarrow> ChatStreamEvent option) \<Rightarrow> StreamState \<Rightarrow> string list
     \<Rightarrow> (Thrown \<times> ChatStreamEvent list) + StreamState" where
  "processLines parse st [] = Inr st"
| "processLines parse st (line # rest) =
     (case processLine parse st line of
        Inl e \<Rightarrow> Inl e
      | Inr st1 \<Rightarrow> processLines parse st1 rest)"

text \<open>
  The read loop. Each element of the list is the text \<^verbatim>\<open>decoder.decode(value,
  {stream: true})\<close> returned for one delivery of \<^verbatim>\<open>reader.read()\<close>; the list ends
  where \<^verbatim>\<open>done\<close> is reported.
  \<^verbatim>\<open>
  buffer += decoder.decode(value, { stream: true });
  const lines = buffer.split('\n');
  buffer = lines.pop() ?? '';
  for (const line of lines) { ... }
  \<close>
\<close>

fun readLoop ::
  "(string \<Rightarrow> ChatStreamEvent option) \<Rightarrow> string \<Rightarrow> StreamState \<Rightarrow> string list
     \<Rightarrow> (Thrown \<times> ChatStreamEvent list) + (string \<times> StreamState)" where
  "readLoop parse buffer st [] = Inr (buffer, st)"
| "readLoop parse buffer st (chunk # rest) =
     (let lines = split_nl (buffer @ chunk);
          buffer1 = (if lines = [] then [] else last lines)
      in case processLines parse st (butlast lines) of
           Inl e \<Rightarrow> Inl e
         | Inr st1 \<Rightarrow> readLoop parse buffer1 st1 rest)"

text \<open>
  The body of a response that streams: the decoded deliveries, and the text the final
  \<^verbatim>\<open>decoder.decode()\<close> returns when the stream has closed.
\<close>

record Body =
  chunks :: "string list"
  flushed :: string

record Response =
  ok :: bool
  status :: nat
  bodyText :: string
  body :: "Body option"

fun decimal :: "nat \<Rightarrow> string" where
  "decimal n = (if n < 10 then [char_of (48 + n)] else decimal (n div 10) @ [char_of (48 + n mod 10)])"

declare decimal.simps [simp del]

text \<open>
  What the promise of \<^verbatim>\<open>streamChatRequest\<close> settles with, and the calls of
  \<^verbatim>\<open>handleEvent\<close> it made: \<^term>\<open>Inl\<close> is a rejection, \<^term>\<open>Inr\<close> the resolved
  \<^verbatim>\<open>ChatResponse\<close>.
\<close>

type_synonym StreamOutcome = "ChatStreamEvent list \<times> (Thrown + ChatResponse)"

definition readStream ::
  "(string \<Rightarrow> ChatStreamEvent option) \<Rightarrow> Body \<Rightarrow> StreamOutcome" where
  "readStream parse b =
     (case readLoop parse [] initialState (chunks b) of
        Inl (e, calls) \<Rightarrow> (calls, Inl e)
      | Inr (buffer, st) \<Rightarrow>
          (let buffer1 = buffer @ flushed b
           in case (if trim buffer1 \<noteq> [] then processEvent parse st buffer1 else Inr st) of
                Inl (e, calls) \<Rightarrow> (calls, Inl e)
              | Inr st1 \<Rightarrow>
                  (case finalPayload st1 of
                     None \<Rightarrow> (handled st1, Inl (JsError ''Chat stream completed without a final payload.''))
                   | Some payload \<Rightarrow> (handled st1, Inr payload))))"

text \<open>
  The function from the point where \<^verbatim>\<open>fetch\<close> has resolved with a response.
\<close>

definition streamChatRequest ::
  "(string \<Rightarrow> ChatStreamEvent option) \<Rightarrow> Response \<Rightarrow> StreamOutcome" where
  "streamChatRequest parse response =
     (if \<not> ok response then
        ([], Inl (JsError (if bodyText response \<noteq> [] then bodyText response
                           else ''Backend request failed ('' @ decimal (status response) @ '')'')))
      else case body response of
             None \<Rightarrow> ([], Inl (JsError ''Streaming is not supported in this environment.''))
           | Some b \<Rightarrow> readStream parse b)"

text \<open>
  The lines a body consists of: the complete lines of the delivered text, then the
  fragment after the last line feed together with the flushed text.
\<close>

definition streamLines :: "Body \<Rightarrow> string list" where
  "streamLines b =
     (let lines = split_nl (concat (chunks b))
      in butlast lines @ [last lines @ flushed b])"

fun lastTerminal :: "ChatStreamEvent list \<Rightarrow> ChatResponse option" where
  "lastTerminal [] = None"
| "lastTerminal (e # es) =
     (case lastTerminal es of
        Some p \<Rightarrow> Some p
      | None \<Rightarrow> (case e of End p \<Rightarrow> Some p | Cached p \<Rightarrow> Some p | _ \<Rightarrow> None))"

definition isTokenLine :: "(string \<Rightarrow> ChatStreamEvent option) \<Rightarrow> string \<Rightarrow> bool" where
  "isTokenLine parse line \<longleftrightarrow>
     trim line \<noteq> [] \<and> (case parse line of Some (Token t) \<Rightarrow> True | _ \<Rightarrow> False)"

definition isTerminalLine :: "(string \<Rightarrow> ChatStreamEvent option) \<Rightarrow> string \<Rightarrow> bool" where
  "isTerminalLine parse line \<longleftrightarrow>
     trim line \<noteq> [] \<and>
     (case parse line of Some (End p) \<Rightarrow> True | Some (Cached p) \<Rightarrow> True | _ \<Rightarrow> False)"

definition isProgressLine :: "(string \<Rightarrow> ChatStreamEvent option) \<Rightarrow> string \<Rightarrow> bool" where
  \<comment> \<open>blank, or a \<^verbatim>\<open>token\<close>, \<^verbatim>\<open>sources\<close> or \<^verbatim>\<open>summary\<close> event\<close>
  "isProgressLine parse line \<longleftrightarrow>
     trim line = [] \<or>
     (case parse line of
        Some (Token t) \<Rightarrow> True | Some (Sources s) \<Rightarrow> True | Some (Summary s) \<Rightarrow> True
      | _ \<Rightarrow> False)"

text \<open>
  How the promise settles after the last line: the tail of \<^verbatim>\<open>streamChatRequest\<close>
  (\<^verbatim>\<open>if (!finalPayload) throw ...; return finalPayload;\<close>), named for the proofs.
\<close>

definition finish :: "(Thrown \<times> ChatStreamEvent list) + StreamState \<Rightarrow> StreamOutcome" where
  "finish r =
     (case r of
        Inl (e, calls) \<Rightarrow> (calls, Inl e)
      | Inr st1 \<Rightarrow>
          (case finalPayload st1 of
             None \<Rightarrow> (handled st1, Inl (JsError ''Chat stream completed without a final payload.''))
           | Some payload \<Rightarrow> (handled st1, Inr payload)))"

definition payloadInv :: "StreamState \<Rightarrow> bool" where
  "payloadInv st \<longleftrightarrow>
     finalPayload st = map_option normalizeChatResponse (lastTerminal (handled st))"

text \<open>
  The example of the spec's testable properties: a response that streams the given
  deliveries, and \<^verbatim>\<open>JSON.parse\<close> on the lines the example uses.
\<close>

definition streaming :: "string list \<Rightarrow> Response" where
  "streaming cs = \<lparr> ok = True, status = 200, bodyText = [],
                    body = Some \<lparr> chunks = cs, flushed = [] \<rparr> \<rparr>"

definition helloPayload :: ChatResponse where
  "helloPayload = \<lparr> success = None, answer = Some ''Hello'', summary = None,
                     sources = None, error = None \<rparr>"

definition exampleParse :: "string \<Rightarrow> ChatStreamEvent option" where
  \<open>exampleParse = map_of
     [(''{"type":"token","token":"Hi"}'', Token ''Hi''),
      (''{"type":"token","token":" there"}'', Token '' there''),
      (''{"type":"end","payload":{"answer":"Hello"}}'', End helloPayload),
      (''{"type":"error","error":"boom"}'', ErrorEvent (Some ''boom''))]\<close>

definition LF :: string where
  "LF = [CHR 0x0A]"

section \<open>Scrape orchestrator of the service worker\<close>

text \<open>The \<^verbatim>\<open>Problem\<close> interface of the types file.\<close>

record Problem =
  title :: string
  difficulty :: Difficulty
  description :: string
  examples :: "string list"
  constraints :: string
  url :: string
  slug :: string
  problemNumber :: string
  timestamp :: nat

text \<open>
  What the browser does for the orchestrator. \<^verbatim>\<open>chrome.scripting.executeScript\<close>
  runs the page function and calls back with \<^verbatim>\<open>chrome.runtime.lastError\<close> set, with
  no injection result, or with the value the page function returned
  (\<^verbatim>\<open>Problem | null\<close>). The outcome of the k-th call on a tab (counted from 0) and
  the milliseconds it takes are given by the environment, and so is the time by which a
  \<^verbatim>\<open>setTimeout(resolve, 300)\<close> fires late. The clock \<^verbatim>\<open>Date.now()\<close> is a
  number of milliseconds that does not run backwards.
\<close>

datatype Injection = LastError string | NoResults | Result "Problem option"

record Browser =
  injection :: "nat \<Rightarrow> nat \<Rightarrow> Injection"
  scrapeMs :: "nat \<Rightarrow> nat \<Rightarrow> nat"
  timerLag :: "nat \<Rightarrow> nat \<Rightarrow> nat"

text \<open>
  \<^verbatim>\<open>
  const lastError = chrome.runtime.lastError;
  if (lastError) { reject(new Error(lastError.message)); return; }
  const [firstResult] = injectionResults ?? [];
  const candidate: unknown = firstResult?.result ?? null;
  if (candidate && typeof candidate === 'object' && 'title' in candidate) {
    resolve(candidate as Problem); return;
  }
  resolve(null);
  \<close>
\<close>

definition executeScrape :: "Browser \<Rightarrow> nat \<Rightarrow> nat \<Rightarrow> string + Problem option" where
  "executeScrape env tabId k =
     (case injection env tabId k of
        LastError message \<Rightarrow> Inl message
      | NoResults \<Rightarrow> Inr None
      | Result candidate \<Rightarrow> Inr candidate)"

text \<open>
  \<^verbatim>\<open>
  const scrapeProblemFromTab = async (tabId: number, timeoutMs = 12_000) => {
    const start = Date.now();
    while (Date.now() - start < timeoutMs) {
      const problem = await executeScrape(tabId);
      if (problem) { return problem; }
      await new Promise((resolve) => setTimeout(resolve, 300));
    }
    throw new Error('Could not detect a LeetCode problem on this page.');
  };
  \<close>
  The loop carries the clock and the number of calls made. The result is the clock value
  at which the promise settles, and the rejection message or the resolved
  \<^verbatim>\<open>Problem\<close>.
\<close>

function scrapeLoop ::
  "Browser \<Rightarrow> nat \<Rightarrow> nat \<Rightarrow> nat \<Rightarrow> nat \<Rightarrow> nat \<Rightarrow> nat \<times> (string + Problem)" where
  "scrapeLoop env tabId timeoutMs start now k =
     (if now - start < timeoutMs then
        (let done = now + scrapeMs env tabId k
         in case executeScrape env tabId k of
              Inl message \<Rightarrow> (done, Inl message)
            | Inr (Some problem) \<Rightarrow> (done, Inr problem)
            | Inr None \<Rightarrow>
                scrapeLoop env tabId timeoutMs start (done + 300 + timerLag env tabId k) (Suc k))
      else (now, Inl ''Could not detect a LeetCode problem on this page.''))"
  by pat_completeness auto
termination
  by (relation "measure (\<lambda>(env, tabId, timeoutMs, start, now, k). timeoutMs + start - now)") auto

declare scrapeLoop.simps [simp del]

definition scrapeProblemFromTab ::
  "Browser \<Rightarrow> nat \<Rightarrow> nat \<Rightarrow> nat \<Rightarrow> nat \<times> (string + Problem)" where
  "scrapeProblemFromTab env now tabId timeoutMs = scrapeLoop env tabId timeoutMs now now 0"

text \<open>
  The time after the start at which the k-th call of \<^verbatim>\<open>executeScrape\<close> is made, when
  every earlier call resolved with \<^verbatim>\<open>null\<close>.
\<close>

primrec attemptStart :: "Browser \<Rightarrow> nat \<Rightarrow> nat \<Rightarrow> nat" where
  "attemptStart env tabId 0 = 0"
| "attemptStart env tabId (Suc k) =
     attemptStart env tabId k + scrapeMs env tabId k + 300 + timerLag env tabId k"

definition sampleProblem :: Problem where
  "sampleProblem =
     \<lparr> title = ''Two Sum'', difficulty = Easy, description = ''Given an array of integers.'',
       examples = [], constraints = ''Constraints not detected.'',
       url = ''https://leetcode.com/problems/two-sum/'', slug = ''two-sum'',
       problemNumber = ''1'', timestamp = 0 \<rparr>"

text \<open>
  Pages for the examples: the page function finds the problem at call \<open>n\<close> and not
  before; every call takes \<open>ms\<close> milliseconds; timers fire on time.
\<close>

definition readyAt :: "nat \<Rightarrow> nat \<Rightarrow> Browser" where
  "readyAt n ms =
     \<lparr> injection = (\<lambda>tabId k. if k = n then Result (Some sampleProblem) else Result None),
       scrapeMs = (\<lambda>tabId k. ms),
       timerLag = (\<lambda>tabId k. 0) \<rparr>"

definition neverReady :: "nat \<Rightarrow> Browser" where
  "neverReady ms =
     \<lparr> injection = (\<lambda>tabId k. Result None),
       scrapeMs = (\<lambda>tabId k. ms),
       timerLag = (\<lambda>tabId k. 0) \<rparr>"

section \<open>Page content\<close>

text \<open>
  The document tree the scrapers read. A node is a text node or an element with its
  local name (lower case, as the HTML parser leaves it), its attributes and its child
  nodes; comments carry no text and are left out. The scrapers only read the tree.
\<close>

datatype Node =
    Text string
  | Element string "(string \<times> string) list" "Node list"

fun isElement :: "Node \<Rightarrow> bool" where
  "isElement (Text s) = False"
| "isElement (Element name attrs kids) = True"

fun localName :: "Node \<Rightarrow> string" where
  "localName (Text s) = []"
| "localName (Element name attrs kids) = name"

fun attributes :: "Node \<Rightarrow> (string \<times> string) list" where
  "attributes (Text s) = []"
| "attributes (Element name attrs kids) = attrs"

fun childNodes :: "Node \<Rightarrow> Node list" where
  "childNodes (Text s) = []"
| "childNodes (Element name attrs kids) = kids"

fun textContent :: "Node \<Rightarrow> string" where
  "textContent (Text s) = s"
| "textContent (Element name attrs kids) = concat (map textContent kids)"

definition upperAscii :: "char \<Rightarrow> char" where
  "upperAscii c =
     (let n = (of_char c :: nat) in if 97 \<le> n \<and> n \<le> 122 then char_of (n - 32) else c)"

definition tagName :: "Node \<Rightarrow> string" where
  \<comment> \<open>the local name of an HTML element in ASCII upper case\<close>
  "tagName n = map upperAscii (localName n)"

text \<open>
  A reference to an element, as the code holds it: the element, the nodes that follow
  it under its parent, and the reference to its parent. This is what
  \<^verbatim>\<open>parentElement\<close> and \<^verbatim>\<open>nextElementSibling\<close> need; nothing in the sources
  walks backwards or compares two references.
\<close>

datatype Loc = Loc (node: Node) (after: "Node list") (up: "Loc option")

text \<open>The element descendants of \<open>parent\<close> found in the given child nodes, in document order.\<close>

fun descendants :: "Loc \<Rightarrow> Node list \<Rightarrow> Loc list" where
  "descendants parent [] = []"
| "descendants parent (Text s # rest) = descendants parent rest"
| "descendants parent (Element name attrs kids # rest) =
     Loc (Element name attrs kids) rest (Some parent)
       # descendants (Loc (Element name attrs kids) rest (Some parent)) kids
       @ descendants parent rest"

fun childElements :: "Loc \<Rightarrow> Node list \<Rightarrow> Loc list" where
  "childElements parent [] = []"
| "childElements parent (Text s # rest) = childElements parent rest"
| "childElements parent (Element name attrs kids # rest) =
     Loc (Element name attrs kids) rest (Some parent) # childElements parent rest"

definition children :: "Loc \<Rightarrow> Loc list" where
  "children l = childElements l (childNodes (node l))"

definition parentElement :: "Loc \<Rightarrow> Loc option" where
  "parentElement l = up l"

definition nextElementSibling :: "Loc \<Rightarrow> Loc option" where
  "nextElementSibling l =
     (case dropWhile (\<lambda>n. \<not> isElement n) (after l) of
        [] \<Rightarrow> None
      | e # rest \<Rightarrow> Some (Loc e rest (up l)))"

text \<open>
  The selectors the sources use: a type selector (\<^verbatim>\<open>strong\<close>, \<^verbatim>\<open>pre\<close>), an
  attribute selector with and without a value (\<^verbatim>\<open>[data-cy="question-title"]\<close>,
  \<^verbatim>\<open>[diff]\<close>) and a class selector (\<^verbatim>\<open>.question-content__JfgR\<close>).
\<close>

datatype Selector = Tag string | HasAttr string | AttrIs string string | Class string

definition isAsciiSpace :: "char \<Rightarrow> bool" where
  "isAsciiSpace c \<longleftrightarrow> c \<in> set [CHR 0x09, CHR 0x0A, CHR 0x0C, CHR 0x0D, CHR 0x20]"

fun classTokens :: "string \<Rightarrow> string list" where
  "classTokens [] = [[]]"
| "classTokens (c # cs) =
     (if isAsciiSpace c then [] # classTokens cs
      else (case classTokens cs of [] \<Rightarrow> [[c]] | t # ts \<Rightarrow> (c # t) # ts))"

fun matches :: "Selector \<Rightarrow> Node \<Rightarrow> bool" where
  "matches sel (Text s) = False"
| "matches (Tag t) (Element name attrs kids) = (name = t)"
| "matches (HasAttr k) (Element name attrs kids) = (map_of attrs k \<noteq> None)"
| "matches (AttrIs k v) (Element name attrs kids) = (map_of attrs k = Some v)"
| "matches (Class c) (Element name attrs kids) =
     (case map_of attrs ''class'' of
        None \<Rightarrow> False
      | Some v \<Rightarrow> c \<noteq> [] \<and> c \<in> set (classTokens v))"

definition querySelectorAll :: "Loc \<Rightarrow> Selector \<Rightarrow> Loc list" where
  "querySelectorAll l sel =
     filter (\<lambda>d. matches sel (node d)) (descendants l (childNodes (node l)))"

definition querySelector :: "Loc \<Rightarrow> Selector \<Rightarrow> Loc option" where
  "querySelector l sel = (case querySelectorAll l sel of [] \<Rightarrow> None | d # ds \<Rightarrow> Some d)"

section \<open>HTML content parser\<close>

text \<open>
  \<^verbatim>\<open>parseHtmlContent\<close>, declared with the same body in the content script and in
  the function the service worker injects. The loop over \<^verbatim>\<open>body.children\<close>:
  \<^verbatim>\<open>
  for (const child of Array.from(body.children)) {
    const strongText = child.querySelector('strong')?.textContent?.trim().toLowerCase() ?? '';
    if (strongText.startsWith('example') || strongText.startsWith('constraints')) break;
    if (child.tagName.toLowerCase() === 'pre') break;
    const text = child.textContent?.trim();
    if (text) descriptionParts.push(text);
  }
  \<close>
\<close>

definition strongText :: "Loc \<Rightarrow> string" where
  "strongText child =
     (case querySelector child (Tag ''strong'') of
        None \<Rightarrow> []
      | Some s \<Rightarrow> toLowerCase (trim (textContent (node s))))"

fun descriptionParts :: "Loc list \<Rightarrow> string list" where
  "descriptionParts [] = []"
| "descriptionParts (child # rest) =
     (if startsWith (strongText child) ''example'' \<or> startsWith (strongText child) ''constraints''
      then []
      else if toLowerCase (tagName (node child)) = ''pre'' then []
      else if trim (textContent (node child)) \<noteq> []
           then trim (textContent (node child)) # descriptionParts rest
           else descriptionParts rest)"

text \<open>
  \<^verbatim>\<open>
  const examples = Array.from(body.querySelectorAll('pre'))
    .map((node) => node.textContent?.trim() ?? '')
    .filter(Boolean);
  \<close>
\<close>

definition examplesOf :: "Loc \<Rightarrow> string list" where
  "examplesOf root =
     filter (\<lambda>s. s \<noteq> [])
       (map (\<lambda>n. trim (textContent (node n))) (querySelectorAll root (Tag ''pre'')))"

text \<open>
  \<^verbatim>\<open>
  const strongNodes = Array.from(body.querySelectorAll('strong'));
  const constraintNode = strongNodes.find((node) =>
    (node.textContent ?? '').toLowerCase().includes('constraint'));
  let constraints = 'Constraints not detected.';
  if (constraintNode) {
    const listCandidate = constraintNode.parentElement?.nextElementSibling;
    if (listCandidate && (listCandidate.tagName === 'UL' || listCandidate.tagName === 'OL')) {
      constraints = Array.from(listCandidate.children)
        .map((item) => item.textContent?.trim() ?? '').filter(Boolean).join('\n');
    } else {
      constraints = constraintNode.parentElement?.textContent?.trim() ?? constraints;
    }
  }
  \<close>
\<close>

definition isConstraintLabel :: "Node \<Rightarrow> bool" where
  "isConstraintLabel n \<longleftrightarrow> includesStr (toLowerCase (textContent n)) ''constraint''"

definition listItems :: "Loc \<Rightarrow> string" where
  "listItems listCandidate =
     join [CHR 0x0A]
       (filter (\<lambda>s. s \<noteq> [])
          (map (\<lambda>item. trim (textContent (node item))) (children listCandidate)))"

definition constraintsOf :: "Loc \<Rightarrow> string" where
  "constraintsOf root =
     (case find (\<lambda>n. isConstraintLabel (node n)) (querySelectorAll root (Tag ''strong'')) of
        None \<Rightarrow> ''Constraints not detected.''
      | Some constraintNode \<Rightarrow>
          (case parentElement constraintNode of
             None \<Rightarrow> ''Constraints not detected.''
           | Some parent \<Rightarrow>
               (case nextElementSibling parent of
                  None \<Rightarrow> trim (textContent (node parent))
                | Some listCandidate \<Rightarrow>
                    if tagName (node listCandidate) = ''UL'' \<or> tagName (node listCandidate) = ''OL''
                    then listItems listCandidate
                    else trim (textContent (node parent)))))"

definition descriptionOf :: "Loc \<Rightarrow> string" where
  \<comment> \<open>\<^verbatim>\<open>descriptionParts.join('\n\n') || root.textContent?.trim() || 'Unable to ...'\<close>\<close>
  "descriptionOf root =
     (let joined = join [CHR 0x0A, CHR 0x0A] (descriptionParts (children root))
      in if joined \<noteq> [] then joined
         else if trim (textContent (node root)) \<noteq> [] then trim (textContent (node root))
         else ''Unable to extract the problem description.'')"

record ParsedContent =
  parsedDescription :: string
  parsedExamples :: "string list"
  parsedConstraints :: string

text \<open>
  \<^verbatim>\<open>new DOMParser().parseFromString(html, 'text/html').body\<close> is the parameter
  \<open>domParser\<close>: the HTML parser belongs to the browser.
\<close>

definition parseHtmlContent :: "(string \<Rightarrow> Node) \<Rightarrow> string \<Rightarrow> ParsedContent" where
  "parseHtmlContent domParser html =
     (let body = Loc (domParser html) [] None
      in \<lparr> parsedDescription = descriptionOf body,
           parsedExamples = examplesOf body,
           parsedConstraints = constraintsOf body \<rparr>)"

text \<open>
  The same outputs described on the tree itself, as the spec words them. The
  preformatted blocks among some nodes and below them, in document order:
\<close>

fun preBlocks :: "Node list \<Rightarrow> Node list" where
  "preBlocks [] = []"
| "preBlocks (Text s # rest) = preBlocks rest"
| "preBlocks (Element name attrs kids # rest) =
     (if name = ''pre'' then [Element name attrs kids] else []) @ preBlocks kids @ preBlocks rest"

text \<open>
  The first \<^verbatim>\<open>strong\<close> element, in document order, whose text contains
  ``constraint'' in any letter case, searched in the child nodes of \<open>parent\<close> still
  to visit: the result is that label's parent and the nodes that follow the parent.
\<close>

fun constraintLabel :: "Node \<Rightarrow> Node list \<Rightarrow> Node list \<Rightarrow> (Node \<times> Node list) option" where
  "constraintLabel parent following [] = None"
| "constraintLabel parent following (Text s # rest) = constraintLabel parent following rest"
| "constraintLabel parent following (Element name attrs kids # rest) =
     (if name = ''strong'' \<and> isConstraintLabel (Element name attrs kids)
      then Some (parent, following)
      else case constraintLabel (Element name attrs kids) rest kids of
             Some found \<Rightarrow> Some found
           | None \<Rightarrow> constraintLabel parent following rest)"

definition isList :: "Node \<Rightarrow> bool" where
  "isList n \<longleftrightarrow> isElement n \<and> (tagName n = ''UL'' \<or> tagName n = ''OL'')"

definition itemTexts :: "Node \<Rightarrow> string" where
  \<comment> \<open>the trimmed texts of the element children that are not blank, one per line\<close>
  "itemTexts l =
     join [CHR 0x0A]
       (filter (\<lambda>s. s \<noteq> []) (map (\<lambda>item. trim (textContent item)) (filter isElement (childNodes l))))"

definition constraintsSpec :: "Node \<Rightarrow> string" where
  "constraintsSpec root =
     (case constraintLabel root [] (childNodes root) of
        None \<Rightarrow> ''Constraints not detected.''
      | Some (parent, following) \<Rightarrow>
          (case filter isElement following of
             [] \<Rightarrow> trim (textContent parent)
           | sibling # others \<Rightarrow>
               if isList sibling then itemTexts sibling else trim (textContent parent)))"

text \<open>
  The constraints as C7 words them: the list is looked for after the label itself, among
  the nodes that follow the label under its parent.
\<close>

fun labelAsClaimed :: "Node \<Rightarrow> Node list \<Rightarrow> (Node \<times> Node list) option" where
  "labelAsClaimed parent [] = None"
| "labelAsClaimed parent (Text s # rest) = labelAsClaimed parent rest"
| "labelAsClaimed parent (Element name attrs kids # rest) =
     (if name \<in> set [''strong'', ''b'', ''em'', ''i''] \<and> isConstraintLabel (Element name attrs kids)
      then Some (parent, rest)
      else case labelAsClaimed (Element name attrs kids) kids of
             Some found \<Rightarrow> Some found
           | None \<Rightarrow> labelAsClaimed parent rest)"

definition constraintsAsClaimed :: "Node \<Rightarrow> string" where
  "constraintsAsClaimed root =
     (case labelAsClaimed root (childNodes root) of
        None \<Rightarrow> ''Constraints not detected.''
      | Some (parent, following) \<Rightarrow>
          (case filter isElement following of
             [] \<Rightarrow> textContent parent
           | sibling # others \<Rightarrow>
               if isList sibling
               then join [CHR 0x0A] (map textContent (filter isElement (childNodes sibling)))
               else textContent parent))"

text \<open>
  The HTML parser on the fragments of the examples: a fragment of the table parses to
  the body beside it, any other text to an empty body.
\<close>

definition parserOf :: "(string \<times> Node list) list \<Rightarrow> string \<Rightarrow> Node" where
  "parserOf table html =
     (case map_of table html of
        None \<Rightarrow> Element ''body'' [] []
      | Some kids \<Rightarrow> Element ''body'' [] kids)"

definition sampleFragments :: "(string \<times> Node list) list" where
  \<open>sampleFragments =
     [(''<p>Find two numbers.</p><pre> nums = [2,7] </pre><pre>   </pre><pre>nums = [3,3]</pre>'',
       [Element ''p'' [] [Text ''Find two numbers.''],
        Element ''pre'' [] [Text '' nums = [2,7] ''],
        Element ''pre'' [] [Text ''   ''],
        Element ''pre'' [] [Text ''nums = [3,3]'']]),
      (''<p>Text</p><pre>   </pre>'',
       [Element ''p'' [] [Text ''Text''], Element ''pre'' [] [Text ''   '']]),
      (''<p><strong>Constraints:</strong></p><ul><li>1 <= n <= 10</li><li>n is even</li></ul>'',
       [Element ''p'' [] [Element ''strong'' [] [Text ''Constraints:'']],
        Element ''ul'' [] [Element ''li'' [] [Text ''1 <= n <= 10''],
                           Element ''li'' [] [Text ''n is even'']]]),
      (''<p><strong>Constraints:</strong> n is positive</p><p>Follow up</p>'',
       [Element ''p'' [] [Element ''strong'' [] [Text ''Constraints:''], Text '' n is positive''],
        Element ''p'' [] [Text ''Follow up'']]),
      (''<p>No label here</p>'',
       [Element ''p'' [] [Text ''No label here'']])]\<close>

section \<open>Page scraper\<close>

text \<open>
  \<^verbatim>\<open>scrapeProblemInPage\<close>, the function the service worker injects into the tab, and
  the helpers declared inside it.
  \<^verbatim>\<open>
  const toSlug = (value: string) =>
    value.toLowerCase().replace(/[^a-z0-9]+/g, '-').replace(/^-|-$/g, '');
  \<close>
\<close>

definition isSlugChar :: "char \<Rightarrow> bool" where
  "isSlugChar c \<longleftrightarrow>
     (let n = (of_char c :: nat) in (97 \<le> n \<and> n \<le> 122) \<or> (48 \<le> n \<and> n \<le> 57))"

fun dashRuns :: "bool \<Rightarrow> string \<Rightarrow> string" where
  \<comment> \<open>\<^verbatim>\<open>replace(/[^a-z0-9]+/g, '-')\<close>; the flag tells that the run being read already
      has its dash\<close>
  "dashRuns inRun [] = []"
| "dashRuns inRun (c # cs) =
     (if isSlugChar c then c # dashRuns False cs
      else if inRun then dashRuns True cs
      else CHR ''-'' # dashRuns True cs)"

definition stripDashes :: "string \<Rightarrow> string" where
  \<comment> \<open>\<^verbatim>\<open>replace(/^-|-$/g, '')\<close>: one dash at the start, then one at the end of what is left\<close>
  "stripDashes s =
     (let s1 = (case s of [] \<Rightarrow> [] | c # cs \<Rightarrow> if c = CHR ''-'' then cs else s)
      in if s1 \<noteq> [] \<and> last s1 = CHR ''-'' then butlast s1 else s1)"

definition toSlug :: "string \<Rightarrow> string" where
  "toSlug v = stripDashes (dashRuns False (toLowerCase v))"

fun splitOn :: "char \<Rightarrow> string \<Rightarrow> string list" where
  "splitOn sep [] = [[]]"
| "splitOn sep (c # cs) =
     (if c = sep then [] # splitOn sep cs
      else (case splitOn sep cs of [] \<Rightarrow> [[c]] | l # ls \<Rightarrow> (c # l) # ls))"

text \<open>
  What the page function reads from its page: the location, the embedded
  \<^verbatim>\<open>__NEXT_DATA__\<close> object, the document, the clock, and the browser's HTML parser.
  A JSON number is kept as an integer; the code reads only whether it is zero and its
  decimal text, which is what \<^verbatim>\<open>String\<close> gives for an integer of magnitude below
  1e21. Fractions and larger numbers are outside the model.
\<close>

datatype Json =
    JNull
  | JBool bool
  | JNum int
  | JStr string
  | JArr "Json list"
  | JObj "(string \<times> Json) list"

datatype GraphReply = FetchFailed | NotOk | Reply Json

record Page =
  pathname :: string
  href :: string
  nextData :: "Json option"
  documentElement :: Node
  parseFromString :: "string \<Rightarrow> Node"
  graphql :: "string \<Rightarrow> GraphReply"
  clock :: nat

definition pathSegment :: "Page \<Rightarrow> string option" where
  \<comment> \<open>\<^verbatim>\<open>window.location.pathname.split('/').filter(Boolean)[1]\<close>\<close>
  "pathSegment page =
     (case filter (\<lambda>s. s \<noteq> []) (splitOn CHR ''/'' (pathname page)) of
        a # b # rest \<Rightarrow> Some b
      | _ \<Rightarrow> None)"

definition currentSlug :: "Page \<Rightarrow> string" where
  "currentSlug page = toSlug (case pathSegment page of None \<Rightarrow> [] | Some s \<Rightarrow> s)"

text \<open>The value \<^verbatim>\<open>Omit<Problem, 'timestamp'>\<close> the extractors return.\<close>

record ParsedProblem =
  foundTitle :: string
  foundDifficulty :: Difficulty
  foundDescription :: string
  foundExamples :: "string list"
  foundConstraints :: string
  foundUrl :: string
  foundSlug :: string
  foundNumber :: string

definition withTimestamp :: "ParsedProblem \<Rightarrow> nat \<Rightarrow> Problem" where
  \<comment> \<open>\<^verbatim>\<open>{ ...parsed, timestamp: Date.now() }\<close>\<close>
  "withTimestamp parsed t =
     \<lparr> title = foundTitle parsed, difficulty = foundDifficulty parsed,
       description = foundDescription parsed, examples = foundExamples parsed,
       constraints = foundConstraints parsed, url = foundUrl parsed,
       slug = foundSlug parsed, problemNumber = foundNumber parsed, timestamp = t \<rparr>"

subsection \<open>DOM extractor\<close>

definition documentQuerySelector :: "Node \<Rightarrow> Selector \<Rightarrow> Loc option" where
  \<comment> \<open>\<^verbatim>\<open>document.querySelector\<close>: the root element first, then its descendants\<close>
  "documentQuerySelector root sel =
     (if matches sel root then Some (Loc root [] None)
      else querySelector (Loc root [] None) sel)"

definition getAttribute :: "Node \<Rightarrow> string \<Rightarrow> string option" where
  "getAttribute n k = map_of (attributes n) k"

definition findDifficulty :: "Page \<Rightarrow> Difficulty" where
  "findDifficulty page =
     normalizeDifficulty
       (case (case documentQuerySelector (documentElement page) (HasAttr ''diff'') of
                None \<Rightarrow> None
              | Some e \<Rightarrow> getAttribute (node e) ''diff'') of
          Some v \<Rightarrow> Some v
        | None \<Rightarrow>
            (case documentQuerySelector (documentElement page) (HasAttr ''data-difficulty'') of
               None \<Rightarrow> None
             | Some e \<Rightarrow> getAttribute (node e) ''data-difficulty''))"

definition isDigit :: "char \<Rightarrow> bool" where
  "isDigit c \<longleftrightarrow> (let n = (of_char c :: nat) in 48 \<le> n \<and> n \<le> 57)"

definition isLineTerminator :: "char \<Rightarrow> bool" where
  "isLineTerminator c \<longleftrightarrow> c = CHR 0x0A \<or> c = CHR 0x0D"

definition matchNumberedTitle :: "string \<Rightarrow> (string \<times> string) option" where
  \<comment> \<open>\<^verbatim>\<open>rawTitle.match(/^(\d+)\.\s*(.+)$/)\<close>: the two groups. The second group is what
      follows the white space after the dot, and must be on one line; when only white
      space follows the dot, the expression gives its last character to the group.\<close>
  "matchNumberedTitle s =
     (let digits = takeWhile isDigit s; rest = dropWhile isDigit s
      in if digits = [] then None
         else case rest of
                [] \<Rightarrow> None
              | c # afterDot \<Rightarrow>
                  if c \<noteq> CHR ''.'' then None
                  else (let spaces = takeWhile isWhiteSpace afterDot;
                            tail = dropWhile isWhiteSpace afterDot
                        in if tail \<noteq> [] then
                             (if list_ex isLineTerminator tail then None else Some (digits, tail))
                           else if spaces \<noteq> [] \<and> \<not> isLineTerminator (last spaces)
                                then Some (digits, [last spaces])
                                else None))"

text \<open>
  \<^verbatim>\<open>extractFromDom\<close> of the injected function. It repeats the statements of
  \<^verbatim>\<open>parseHtmlContent\<close> on the content root; the model calls the same definitions.
  \<^verbatim>\<open>
  return {
    title,
    difficulty: findDifficulty(),
    description: descriptionParts.join('\n\n') || contentRoot.textContent?.trim() || '...',
    examples,
    constraints,
    url: window.location.href,
    slug: toSlug(title),
    problemNumber: String(problemNumber),
  };
  \<close>
\<close>

definition extractFromDom :: "Page \<Rightarrow> ParsedProblem option" where
  "extractFromDom page =
     (case documentQuerySelector (documentElement page) (AttrIs ''data-cy'' ''question-title'') of
        None \<Rightarrow> None
      | Some titleNode \<Rightarrow>
          (let rawTitle = trim (textContent (node titleNode))
           in if rawTitle = [] then None
              else
                (let found = matchNumberedTitle rawTitle;
                     number = (case found of
                                 Some (n, t) \<Rightarrow> n
                               | None \<Rightarrow> (case pathSegment page of Some s \<Rightarrow> s | None \<Rightarrow> rawTitle));
                     ttl = (case found of Some (n, t) \<Rightarrow> t | None \<Rightarrow> rawTitle)
                 in case (case documentQuerySelector (documentElement page)
                                 (AttrIs ''data-cy'' ''question-content'') of
                            Some c \<Rightarrow> Some c
                          | None \<Rightarrow> documentQuerySelector (documentElement page)
                                      (Class ''question-content__JfgR'')) of
                      None \<Rightarrow> None
                    | Some contentRoot \<Rightarrow>
                        Some \<lparr> foundTitle = ttl,
                               foundDifficulty = findDifficulty page,
                               foundDescription = descriptionOf contentRoot,
                               foundExamples = examplesOf contentRoot,
                               foundConstraints = constraintsOf contentRoot,
                               foundUrl = href page,
                               foundSlug = toSlug ttl,
                               foundNumber = number \<rparr>)))"

subsection \<open>Structured-data extractor\<close>

text \<open>
  Reading a value that came out of JSON. A property read gives \<^term>\<open>None\<close> for
  \<^verbatim>\<open>undefined\<close>; only an object has the properties the code asks for. The entries
  of an object are kept in the order \<^verbatim>\<open>Object.values\<close> enumerates them.
\<close>

fun getProp :: "Json \<Rightarrow> string \<Rightarrow> Json option" where
  "getProp (JObj entries) k = map_of entries k"
| "getProp v k = None"

fun nullish :: "Json option \<Rightarrow> bool" where
  "nullish None = True"
| "nullish (Some JNull) = True"
| "nullish (Some v) = False"

definition orElse :: "Json option \<Rightarrow> Json option \<Rightarrow> Json option" where
  \<comment> \<open>\<^verbatim>\<open>a ?? b\<close>\<close>
  "orElse a b = (if nullish a then b else a)"

definition questionProp :: "Json \<Rightarrow> string \<Rightarrow> Json option" where
  \<comment> \<open>\<^verbatim>\<open>candidate.question?.k\<close>\<close>
  "questionProp candidate k =
     (case getProp candidate ''question'' of
        None \<Rightarrow> None
      | Some JNull \<Rightarrow> None
      | Some q \<Rightarrow> getProp q k)"

fun falsy :: "Json option \<Rightarrow> bool" where
  "falsy None = True"
| "falsy (Some JNull) = True"
| "falsy (Some (JBool b)) = (\<not> b)"
| "falsy (Some (JNum n)) = (n = 0)"
| "falsy (Some (JStr s)) = (s = [])"
| "falsy (Some (JArr items)) = False"
| "falsy (Some (JObj entries)) = False"

fun isObject :: "Json option \<Rightarrow> bool" where
  \<comment> \<open>truthy and \<^verbatim>\<open>typeof v === 'object'\<close>\<close>
  "isObject (Some (JArr items)) = True"
| "isObject (Some (JObj entries)) = True"
| "isObject v = False"

fun toStr :: "Json \<Rightarrow> string" where
  \<comment> \<open>\<^verbatim>\<open>String(v)\<close>\<close>
  "toStr JNull = ''null''"
| "toStr (JBool b) = (if b then ''true'' else ''false'')"
| "toStr (JNum n) = (if n < 0 then CHR ''-'' # decimal (nat (- n)) else decimal (nat n))"
| "toStr (JStr s) = s"
| "toStr (JArr items) = join '','' (map (\<lambda>v. if v = JNull then [] else toStr v) items)"
| "toStr (JObj entries) = ''[object Object]''"

datatype PageError = TypeError | TitleNotAString

definition toSlugOf :: "Json option \<Rightarrow> PageError + string" where
  \<comment> \<open>\<^verbatim>\<open>toSlug(value)\<close> on a value that was only cast to a string\<close>
  "toSlugOf v = (case v of Some (JStr s) \<Rightarrow> Inr (toSlug s) | _ \<Rightarrow> Inl TypeError)"

definition normalizeDifficultyOf :: "Json option \<Rightarrow> PageError + Difficulty" where
  \<comment> \<open>\<^verbatim>\<open>normalizeDifficulty(value)\<close> on a value that was only cast:
      \<^verbatim>\<open>value.trim()\<close> throws on a truthy value that is not a string\<close>
  "normalizeDifficultyOf v =
     (if falsy v then Inr Medium
      else case v of Some (JStr s) \<Rightarrow> Inr (normalizeDifficulty (Some s)) | _ \<Rightarrow> Inl TypeError)"

definition isCandidate :: "Json \<Rightarrow> bool" where
  "isCandidate v \<longleftrightarrow>
     (case v of
        JObj entries \<Rightarrow>
          (case getProp v ''title'' of
             Some (JStr t) \<Rightarrow>
               (case getProp v ''content'' of
                  Some (JStr c) \<Rightarrow> True
                | _ \<Rightarrow> (case getProp v ''body'' of Some (JStr b) \<Rightarrow> True | _ \<Rightarrow> False))
           | _ \<Rightarrow> False)
      | _ \<Rightarrow> False)"

text \<open>
  \<^verbatim>\<open>extractFromCandidate\<close>. \<^term>\<open>Inr None\<close> is the \<^verbatim>\<open>null\<close> it returns,
  \<^term>\<open>Inl\<close> an exception. Its only call passes a record whose \<^verbatim>\<open>title\<close> is a
  string; for a title of another type the value returned would not be a
  \<^verbatim>\<open>Problem\<close>, which the model reports as \<^term>\<open>TitleNotAString\<close>.
  \<^verbatim>\<open>
  const candidateSlug = toSlug(
    (candidate.titleSlug as string | undefined) ?? (candidate.slug as string | undefined) ?? title);
  if (slug && candidateSlug && candidateSlug !== slug) {
    return null;
  }
  \<close>
\<close>

definition extractFromCandidate :: "Page \<Rightarrow> Json \<Rightarrow> string \<Rightarrow> PageError + ParsedProblem option" where
  "extractFromCandidate page candidate slg =
     (let ttl = orElse (orElse (getProp candidate ''title'') (getProp candidate ''questionTitle''))
                  (questionProp candidate ''title'')
      in if falsy ttl then Inr None
         else
          (let content = orElse (orElse (getProp candidate ''content'') (questionProp candidate ''content''))
                           (getProp candidate ''body'')
           in if falsy content then Inr None
              else
               (case toSlugOf (orElse (orElse (getProp candidate ''titleSlug'') (getProp candidate ''slug'')) ttl) of
                  Inl e \<Rightarrow> Inl e
                | Inr candidateSlug \<Rightarrow>
                    if slg \<noteq> [] \<and> candidateSlug \<noteq> [] \<and> candidateSlug \<noteq> slg then Inr None
                    else
                     (case normalizeDifficultyOf
                             (orElse (getProp candidate ''difficulty'') (questionProp candidate ''difficulty'')) of
                        Inl e \<Rightarrow> Inl e
                      | Inr level \<Rightarrow>
                         (let number =
                                orElse (orElse (orElse (orElse (orElse (orElse
                                  (getProp candidate ''questionFrontendId'')
                                  (getProp candidate ''frontendQuestionId''))
                                  (getProp candidate ''questionId''))
                                  (questionProp candidate ''questionFrontendId''))
                                  (questionProp candidate ''frontendQuestionId''))
                                  (questionProp candidate ''questionId''))
                                  (orElse (map_option JStr (pathSegment page)) ttl);
                              parsed = parseHtmlContent (parseFromString page)
                                         (case content of Some c \<Rightarrow> toStr c | None \<Rightarrow> [])
                          in case ttl of
                               Some (JStr t) \<Rightarrow>
                                 Inr (Some
                                   \<lparr> foundTitle = t,
                                     foundDifficulty = level,
                                     foundDescription = parsedDescription parsed,
                                     foundExamples = parsedExamples parsed,
                                     foundConstraints = parsedConstraints parsed,
                                     foundUrl = href page,
                                     foundSlug = (if candidateSlug \<noteq> [] then candidateSlug else slg),
                                     foundNumber = (case number of Some n \<Rightarrow> toStr n | None \<Rightarrow> ''undefined'') \<rparr>)
                             | _ \<Rightarrow> Inl TitleNotAString)))))"

text \<open>
  The traversal of \<^verbatim>\<open>extractFromNextData\<close>. The stack is a list with its top at
  the head.
  \<^verbatim>\<open>
  const enqueue = (value: unknown) => {
    if (!value || typeof value !== 'object') return;
    if (Array.isArray(value)) { for (const item of value) stack.push(item); }
    else { stack.push(value); }
  };
  \<close>
\<close>

fun enqueue :: "Json \<Rightarrow> Json list \<Rightarrow> Json list" where
  "enqueue (JArr items) stack = rev items @ stack"
| "enqueue (JObj entries) stack = JObj entries # stack"
| "enqueue v stack = stack"

lemma size_list_rev: "size_list f (rev xs) = size_list f xs"
  by (induction xs) (simp_all add: size_list_append)

lemma size_enqueue: "size_list size (enqueue v stack) \<le> size_list size stack + Suc (size v)"
  by (cases v) (simp_all add: size_list_append size_list_rev)

lemma size_fold_enqueue:
  "size_list size (fold enqueue (map snd entries) stack)
     \<le> size_list size stack + size_list (size_prod (\<lambda>k. 0) size) entries"
proof (induction entries arbitrary: stack)
  case Nil
  show ?case by simp
next
  case (Cons e entries)
  have "size_list size (fold enqueue (map snd entries) (enqueue (snd e) stack))
      \<le> size_list size (enqueue (snd e) stack) + size_list (size_prod (\<lambda>k. 0) size) entries"
    by (rule Cons.IH)
  also have "\<dots> \<le> size_list size stack + Suc (size (snd e))
                 + size_list (size_prod (\<lambda>k. 0) size) entries"
    using size_enqueue [of "snd e" stack] by simp
  finally show ?case by (cases e) simp
qed

text \<open>
  \<^verbatim>\<open>
  while (stack.length > 0) {
    const node = stack.pop();
    if (!node || typeof node !== 'object') continue;
    if (isCandidate(node)) {
      const parsed = extractFromCandidate(node as Record<string, unknown>, slug);
      if (parsed) return parsed;
    }
    if (Array.isArray(node)) { enqueue(node); continue; }
    for (const value of Object.values(node as Record<string, unknown>)) enqueue(value);
  }
  return null;
  \<close>
\<close>

function walk :: "Page \<Rightarrow> string \<Rightarrow> Json list \<Rightarrow> PageError + ParsedProblem option" where
  "walk page slg [] = Inr None"
| "walk page slg (JArr items # stack) = walk page slg (rev items @ stack)"
| "walk page slg (JObj entries # stack) =
     (case (if isCandidate (JObj entries) then extractFromCandidate page (JObj entries) slg
            else Inr None) of
        Inl e \<Rightarrow> Inl e
      | Inr (Some parsed) \<Rightarrow> Inr (Some parsed)
      | Inr None \<Rightarrow> walk page slg (fold enqueue (map snd entries) stack))"
| "walk page slg (JNull # stack) = walk page slg stack"
| "walk page slg (JBool b # stack) = walk page slg stack"
| "walk page slg (JNum n # stack) = walk page slg stack"
| "walk page slg (JStr s # stack) = walk page slg stack"
  by pat_completeness auto
termination
proof (relation "measure (\<lambda>(page, slg, stack). size_list size stack)")
  fix page :: Page and slg :: string and entries :: "(string \<times> Json) list" and stack :: "Json list"
  show "((page, slg, fold enqueue (map snd entries) stack), (page, slg, JObj entries # stack))
          \<in> measure (\<lambda>(page, slg, stack). size_list size stack)"
    using size_fold_enqueue [of entries stack] by simp
qed (simp_all add: size_list_append size_list_rev)

definition extractFromNextData :: "Page \<Rightarrow> PageError + ParsedProblem option" where
  "extractFromNextData page =
     (case nextData page of
        Some (JArr items) \<Rightarrow> walk page (currentSlug page) (rev items)
      | Some (JObj entries) \<Rightarrow> walk page (currentSlug page) [JObj entries]
      | _ \<Rightarrow> Inr None)"

subsection \<open>Network extractor and the page function\<close>

definition fetchQuestionViaGraphQL :: "Page \<Rightarrow> string \<Rightarrow> Json option" where
  \<comment> \<open>a failed request, a response that is not ok and a body that is not JSON all give
      \<^verbatim>\<open>null\<close>\<close>
  "fetchQuestionViaGraphQL page slg =
     (if slg = [] then None
      else case graphql page slg of
             FetchFailed \<Rightarrow> None
           | NotOk \<Rightarrow> None
           | Reply json \<Rightarrow>
               (let d = getProp json ''data''
                in if \<not> isObject d then None
                   else (let question = (case d of Some v \<Rightarrow> getProp v ''question'' | None \<Rightarrow> None)
                         in if \<not> isObject question then None else question)))"

definition stringProp :: "Json \<Rightarrow> string \<Rightarrow> string option" where
  \<comment> \<open>\<^verbatim>\<open>typeof q.k === 'string' ? q.k : undefined\<close>\<close>
  "stringProp q k = (case getProp q k of Some (JStr s) \<Rightarrow> Some s | _ \<Rightarrow> None)"

definition scrapeProblemInPage :: "Page \<Rightarrow> PageError + Problem option" where
  "scrapeProblemInPage page =
     (case extractFromNextData page of
        Inl e \<Rightarrow> Inl e
      | Inr fromData \<Rightarrow>
          (case (case fromData of Some p \<Rightarrow> Some p | None \<Rightarrow> extractFromDom page) of
             Some parsed \<Rightarrow> Inr (Some (withTimestamp parsed (clock page)))
           | None \<Rightarrow>
               (let slg = currentSlug page
                in case fetchQuestionViaGraphQL page slg of
                     None \<Rightarrow> Inr None
                   | Some graphQuestion \<Rightarrow>
                       (let parsed = parseHtmlContent (parseFromString page)
                                       (case stringProp graphQuestion ''content'' of
                                          Some c \<Rightarrow> c | None \<Rightarrow> [])
                        in Inr (Some
                             \<lparr> title = (case stringProp graphQuestion ''title'' of
                                          Some t \<Rightarrow> t | None \<Rightarrow> slg),
                               difficulty = normalizeDifficulty (stringProp graphQuestion ''difficulty''),
                               description = parsedDescription parsed,
                               examples = parsedExamples parsed,
                               constraints = parsedConstraints parsed,
                               url = href page,
                               slug = slg,
                               problemNumber =
                                 (case stringProp graphQuestion ''questionFrontendId'' of
                                    Some n \<Rightarrow> n
                                  | None \<Rightarrow>
                                      (case stringProp graphQuestion ''frontendQuestionId'' of
                                         Some n \<Rightarrow> n | None \<Rightarrow> slg)),
                               timestamp = clock page \<rparr>)))))"

text \<open>
  A page in the middle of a client-side navigation: the address is already the one of
  ``Add Two Numbers'', the document still shows ``Two Sum'', and the embedded data has
  no question record.
\<close>

definition stalePage :: Page where
  "stalePage =
     \<lparr> pathname = ''/problems/add-two-numbers/description/'',
       href = ''https://leetcode.com/problems/add-two-numbers/description/'',
       nextData = Some (JObj [(''props'', JObj [(''pageProps'', JObj [])])]),
       documentElement =
         Element ''html'' []
           [Element ''head'' [] [],
            Element ''body'' []
              [Element ''div'' [(''data-cy'', ''question-title'')] [Text ''1. Two Sum''],
               Element ''div'' [(''diff'', ''Easy'')] [Text ''Easy''],
               Element ''div'' [(''data-cy'', ''question-content'')]
                 [Element ''p'' [] [Text ''Given an array of integers.''],
                  Element ''pre'' [] [Text ''Input: nums = [2,7,11,15]'']]]],
       parseFromString = parserOf sampleFragments,
       graphql = (\<lambda>s. FetchFailed),
       clock = 1000 \<rparr>"

text \<open>
  The same navigation seen by the structured-data extractor: the embedded data still
  holds the record of ``Two Sum''.
\<close>

definition staleData :: Json where
  \<open>staleData =
     JObj [(''props'', JObj [(''pageProps'', JObj [(''dehydratedState'', JObj [(''queries'',
       JArr [JObj [(''state'', JObj [(''data'', JObj [(''question'',
         JObj [(''questionFrontendId'', JStr ''1''), (''title'', JStr ''Two Sum''),
               (''titleSlug'', JStr ''two-sum''), (''difficulty'', JStr ''Easy''),
               (''content'', JStr ''<p>No label here</p>'')])])])]])])])])]\<close>

text \<open>The values inside a JSON value, itself included: the nodes the traversal can reach.\<close>

fun subvalues :: "Json \<Rightarrow> Json list" where
  "subvalues (JArr items) = JArr items # concat (map subvalues items)"
| "subvalues (JObj entries) = JObj entries # concat (map (\<lambda>e. subvalues (snd e)) entries)"
| "subvalues v = [v]"

section \<open>Message handler of the service worker\<close>

text \<open>
  The listener registered with \<^verbatim>\<open>chrome.runtime.onMessage\<close>. What the browser
  answers is given: whether the side panel API exists, the outcome of
  \<^verbatim>\<open>chrome.tabs.query\<close> (the tabs, or \<^verbatim>\<open>chrome.runtime.lastError\<close> with its
  optional message), and what \<^verbatim>\<open>chrome.sidePanel.setOptions\<close> and
  \<^verbatim>\<open>chrome.sidePanel.open\<close> throw, if anything. Every callback and promise of the
  browser is taken to settle, and \<^verbatim>\<open>sendResponse\<close> not to throw.
\<close>

datatype Rejection = ErrorObject string | OtherValue

fun messageOf :: "Rejection \<Rightarrow> string \<Rightarrow> string" where
  \<comment> \<open>\<^verbatim>\<open>error instanceof Error ? error.message : fallback\<close>\<close>
  "messageOf (ErrorObject m) fallback = m"
| "messageOf OtherValue fallback = fallback"

record Tab =
  tabIdent :: "nat option"

datatype QueryResult = QueryFailed "string option" | ActiveTabs "Tab list"

record Chrome =
  hasSidePanel :: bool
  tabsQuery :: QueryResult
  setOptionsThrows :: "Rejection option"
  openThrows :: "Rejection option"
  browser :: Browser
  dateNow :: nat

text \<open>
  The responses: \<^verbatim>\<open>{ success: true }\<close>, \<^verbatim>\<open>{ success: false, error }\<close> and
  \<^verbatim>\<open>{ success: true, problem }\<close>.
\<close>

datatype MessageResponse = Succeeded | Failed "string option" | WithProblem Problem

definition activeTabId :: "Tab list \<Rightarrow> nat option" where
  \<comment> \<open>\<^verbatim>\<open>activeTab?.id\<close> when it is truthy: a first tab with an id other than 0\<close>
  "activeTabId tabs =
     (case tabs of
        [] \<Rightarrow> None
      | t # rest \<Rightarrow> (case tabIdent t of None \<Rightarrow> None | Some i \<Rightarrow> if i = 0 then None else Some i))"

text \<open>
  \<^verbatim>\<open>openSidePanelForCurrentTab\<close>: \<^term>\<open>Inl\<close> when the promise rejects, which is when
  the awaited \<^verbatim>\<open>chrome.tabs.query\<close> does.
\<close>

definition openSidePanelForCurrentTab :: "Chrome \<Rightarrow> Rejection + MessageResponse" where
  "openSidePanelForCurrentTab env =
     (if \<not> hasSidePanel env
      then Inr (Failed (Some ''Side panel API is not available in this Chrome version.''))
      else case tabsQuery env of
             QueryFailed m \<Rightarrow> Inl (ErrorObject (case m of None \<Rightarrow> [] | Some t \<Rightarrow> t))
           | ActiveTabs tabs \<Rightarrow>
               (case activeTabId tabs of
                  None \<Rightarrow> Inr (Failed (Some ''No active tab to attach the side panel to.''))
                | Some i \<Rightarrow>
                    (case setOptionsThrows env of
                       Some e \<Rightarrow> Inr (Failed (Some (messageOf e ''Failed to open side panel'')))
                     | None \<Rightarrow>
                         (case openThrows env of
                            Some e \<Rightarrow> Inr (Failed (Some (messageOf e ''Failed to open side panel'')))
                          | None \<Rightarrow> Inr Succeeded))))"

text \<open>
  The listener: the value it returns (\<^term>\<open>True\<close> for \<^verbatim>\<open>return true\<close>, \<^term>\<open>False\<close>
  for returning nothing) and the calls of \<^verbatim>\<open>sendResponse\<close> it causes, in order.
  \<^verbatim>\<open>
  if (message.type === 'OPEN_SIDE_PANEL') {
    void openSidePanelForCurrentTab()
      .then(sendResponse)
      .catch((error) => { ... sendResponse({ success: false, error: messageText }); });
    return true;
  }
  if (message.type === 'GET_ACTIVE_PROBLEM') {
    chrome.tabs.query({ active: true, currentWindow: true }, (tabs) => {
      const lastError = chrome.runtime.lastError;
      if (lastError) { sendResponse({ success: false, error: lastError.message }); return; }
      const activeTab = tabs[0];
      if (!activeTab?.id) { sendResponse({ success: false, error: 'No active tab detected.' }); return; }
      scrapeProblemFromTab(activeTab.id)
        .then((problem) => { sendResponse({ success: true, problem }); })
        .catch((error: unknown) => { ... sendResponse({ success: false, error: messageText }); });
    });
    return true;
  }
  \<close>
\<close>

definition onMessage :: "Chrome \<Rightarrow> Json \<Rightarrow> bool \<times> MessageResponse list" where
  "onMessage env rawMessage =
     (if falsy (Some rawMessage) \<or> \<not> isObject (Some rawMessage) then (False, [])
      else if getProp rawMessage ''type'' = Some (JStr ''OPEN_SIDE_PANEL'') then
        (True,
         [case openSidePanelForCurrentTab env of
            Inr response \<Rightarrow> response
          | Inl e \<Rightarrow> Failed (Some (messageOf e ''Unexpected error''))])
      else if getProp rawMessage ''type'' = Some (JStr ''GET_ACTIVE_PROBLEM'') then
        (True,
         case tabsQuery env of
           QueryFailed m \<Rightarrow> [Failed m]
         | ActiveTabs tabs \<Rightarrow>
             (case activeTabId tabs of
                None \<Rightarrow> [Failed (Some ''No active tab detected.'')]
              | Some i \<Rightarrow>
                  (case snd (scrapeProblemFromTab (browser env) (dateNow env) i 12000) of
                     Inr found \<Rightarrow> [WithProblem found]
                   | Inl m \<Rightarrow> [Failed (Some m)])))
      else (False, []))"

text \<open>Browsers for the examples.\<close>

definition chromeWith :: "QueryResult \<Rightarrow> Browser \<Rightarrow> Chrome" where
  "chromeWith q b =
     \<lparr> hasSidePanel = True, tabsQuery = q, setOptionsThrows = None, openThrows = None,
       browser = b, dateNow = 1000 \<rparr>"

section \<open>Verified properties\<close>

subsection \<open>Difficulty normalizer\<close>

lemma trim_Nil: "trim [] = []"
  by (simp add: trim_def)

lemma normalizeDifficulty_Some:
  "normalizeDifficulty (Some s) =
     (if trim s = ''Easy'' then Easy else if trim s = ''Medium'' then Medium
      else if trim s = ''Hard'' then Hard else Medium)"
  by (cases "s = []") (simp_all add: normalizeDifficulty_def trim_Nil Let_def)

text \<open>
  C8. Every input outside the closed set normalizes to \<^term>\<open>Medium\<close>: the absent value
  (\<^verbatim>\<open>null\<close>, \<^verbatim>\<open>undefined\<close>), the empty string, and every string whose trimmed
  text is none of the three labels. A string whose trimmed text is one of the three
  labels normalizes to that label. The claim's "outside the set" is read on the trimmed
  text, as its second half says.
\<close>

theorem normalizeDifficulty_closed_enum:
  "normalizeDifficulty None = Medium \<and>
   normalizeDifficulty (Some []) = Medium \<and>
   (trim s \<notin> {''Easy'', ''Medium'', ''Hard''} \<longrightarrow> normalizeDifficulty (Some s) = Medium) \<and>
   (trim s \<in> {''Easy'', ''Medium'', ''Hard''} \<longrightarrow>
      difficultyLabel (normalizeDifficulty (Some s)) = trim s)"
  by (auto simp: normalizeDifficulty_Some trim_Nil) (simp add: normalizeDifficulty_def)

theorem normalizeDifficulty_closed_enum_witness:
  "normalizeDifficulty (Some ''unknown'') = Medium \<and>
   difficultyLabel (normalizeDifficulty (Some ''  Hard  '')) = ''Hard''"
proof -
  have a: "trim ''unknown'' \<notin> {''Easy'', ''Medium'', ''Hard''}" by code_simp
  have b: "trim ''  Hard  '' = ''Hard''" by code_simp
  from normalizeDifficulty_closed_enum [of "''unknown''"] a
  have "normalizeDifficulty (Some ''unknown'') = Medium" by blast
  moreover from normalizeDifficulty_closed_enum [of "''  Hard  ''"] b
  have "difficultyLabel (normalizeDifficulty (Some ''  Hard  '')) = ''Hard''" by simp
  ultimately show ?thesis by blast
qed

text \<open>
  C10. The comparison is exact: a string that is one of the labels up to letter case,
  but not letter for letter after trimming, normalizes to \<^term>\<open>Medium\<close>.
\<close>

theorem normalizeDifficulty_case_sensitive:
  "toLowerCase (trim s) \<in> {''easy'', ''medium'', ''hard''} \<Longrightarrow>
   trim s \<notin> {''Easy'', ''Medium'', ''Hard''} \<Longrightarrow>
   normalizeDifficulty (Some s) = Medium"
  by (simp add: normalizeDifficulty_Some)

theorem normalizeDifficulty_case_sensitive_witness:
  "normalizeDifficulty (Some ''easy'') = Medium \<and>
   normalizeDifficulty (Some ''EASY'') = Medium \<and>
   normalizeDifficulty (Some ''hard'') = Medium"
proof -
  have a: "toLowerCase (trim ''easy'') \<in> {''easy'', ''medium'', ''hard''}" by code_simp
  have a': "trim ''easy'' \<notin> {''Easy'', ''Medium'', ''Hard''}" by code_simp
  have b: "toLowerCase (trim ''EASY'') \<in> {''easy'', ''medium'', ''hard''}" by code_simp
  have b': "trim ''EASY'' \<notin> {''Easy'', ''Medium'', ''Hard''}" by code_simp
  have c: "toLowerCase (trim ''hard'') \<in> {''easy'', ''medium'', ''hard''}" by code_simp
  have c': "trim ''hard'' \<notin> {''Easy'', ''Medium'', ''Hard''}" by code_simp
  show ?thesis
    using normalizeDifficulty_case_sensitive [OF a a']
      normalizeDifficulty_case_sensitive [OF b b']
      normalizeDifficulty_case_sensitive [OF c c'] by simp
qed

subsection \<open>Streaming chat client\<close>

lemma split_nl_not_Nil: "split_nl s \<noteq> []"
  by (induction s) (auto split: list.splits)

lemma split_nl_append:
  "split_nl (a @ b) = butlast (split_nl a) @ split_nl (last (split_nl a) @ b)"
proof (induction a)
  case Nil
  show ?case by simp
next
  case (Cons c a)
  obtain l ls where sp: "split_nl a = l # ls"
    using split_nl_not_Nil [of a] by (cases "split_nl a") auto
  show ?case
  proof (cases "c = CHR 0x0A")
    case True
    with Cons sp show ?thesis by simp
  next
    case False
    show ?thesis
    proof (cases ls)
      case Nil
      with False Cons sp show ?thesis by simp
    next
      case (Cons m ms)
      with False Cons.IH sp show ?thesis
        by (simp split: list.splits)
    qed
  qed
qed

lemma split_nl_no_newline: "CHR 0x0A \<notin> set s \<Longrightarrow> split_nl s = [s]"
  by (induction s) auto

lemma last_split_nl_no_newline: "CHR 0x0A \<notin> set (last (split_nl s))"
  by (induction s) (auto simp: split_nl_not_Nil split: list.splits)

lemma processLines_append:
  "processLines parse st (xs @ ys) =
     (case processLines parse st xs of Inl e \<Rightarrow> Inl e | Inr st1 \<Rightarrow> processLines parse st1 ys)"
  by (induction xs arbitrary: st) (auto split: sum.splits)

lemma readLoop_concat:
  "CHR 0x0A \<notin> set buffer \<Longrightarrow>
   readLoop parse buffer st cs =
     (case processLines parse st (butlast (split_nl (buffer @ concat cs))) of
        Inl e \<Rightarrow> Inl e
      | Inr st1 \<Rightarrow> Inr (last (split_nl (buffer @ concat cs)), st1))"
proof (induction cs arbitrary: buffer st)
  case Nil
  then show ?case by (simp add: split_nl_no_newline)
next
  case (Cons chunk cs)
  let ?lines = "split_nl (buffer @ chunk)"
  have nl: "CHR 0x0A \<notin> set (last ?lines)" by (rule last_split_nl_no_newline)
  have sp: "split_nl (buffer @ chunk @ concat cs)
              = butlast ?lines @ split_nl (last ?lines @ concat cs)"
    using split_nl_append [of "buffer @ chunk" "concat cs"] by simp
  have ne: "split_nl (last ?lines @ concat cs) \<noteq> []" by (rule split_nl_not_Nil)
  show ?case
    using Cons.IH [OF nl]
    by (simp add: Let_def split_nl_not_Nil sp butlast_append last_append ne
        processLines_append split: sum.splits)
qed

lemma readStream_lines:
  "readStream parse b = finish (processLines parse initialState (streamLines b))"
proof -
  have "readLoop parse [] initialState (chunks b) =
     (case processLines parse initialState (butlast (split_nl (concat (chunks b)))) of
        Inl e \<Rightarrow> Inl e
      | Inr st1 \<Rightarrow> Inr (last (split_nl (concat (chunks b))), st1))"
    using readLoop_concat [of "[]" parse initialState "chunks b"] unfolding append_Nil by simp
  then show ?thesis
    by (simp add: readStream_def streamLines_def finish_def Let_def processLines_append
        processLine_def split: sum.splits prod.splits)
qed

lemma lastTerminal_snoc:
  "lastTerminal (es @ [e]) =
     (case e of End p \<Rightarrow> Some p | Cached p \<Rightarrow> Some p | _ \<Rightarrow> lastTerminal es)"
  by (induction es) (auto split: option.splits ChatStreamEvent.splits)

lemma processLine_inv:
  "processLine parse st l = Inr st1 \<Longrightarrow> payloadInv st \<Longrightarrow> payloadInv st1"
  by (auto simp: processLine_def processEvent_def payloadInv_def lastTerminal_snoc Let_def
      split: if_splits option.splits ChatStreamEvent.splits)

lemma processLines_inv:
  "processLines parse st ls = Inr st1 \<Longrightarrow> payloadInv st \<Longrightarrow> payloadInv st1"
  by (induction ls arbitrary: st) (auto split: sum.splits dest: processLine_inv)

lemma payloadInv_initial: "payloadInv initialState"
  by (simp add: payloadInv_def initialState_def)

lemma readStream_resolved:
  assumes "readStream parse b = (calls, Inr resp)"
  shows "\<exists>p. lastTerminal calls = Some p \<and> resp = normalizeChatResponse p"
proof -
  from assms obtain st1 where
    st1: "processLines parse initialState (streamLines b) = Inr st1"
    and fp: "finalPayload st1 = Some resp" and calls: "calls = handled st1"
    by (auto simp: readStream_lines finish_def split: sum.splits option.splits prod.splits)
  from processLines_inv [OF st1 payloadInv_initial] fp calls
  show ?thesis by (cases "lastTerminal (handled st1)") (auto simp: payloadInv_def)
qed

lemma streamChatRequest_resolved:
  assumes "streamChatRequest parse r = (calls, Inr resp)"
  shows "\<exists>p. lastTerminal calls = Some p \<and> resp = normalizeChatResponse p"
  using assms readStream_resolved [of parse _ calls resp]
  by (auto simp: streamChatRequest_def split: if_splits option.splits)

lemma processLine_token:
  "isTokenLine parse l \<Longrightarrow>
   processLine parse st l = Inr (st\<lparr>handled := handled st @ [the (parse l)]\<rparr>)"
  by (auto simp: isTokenLine_def processLine_def processEvent_def
      split: option.splits ChatStreamEvent.splits)

lemma processLine_same_payload:
  "finalPayload st = finalPayload st' \<Longrightarrow>
   rel_sum (\<lambda>x y. fst x = fst y) (\<lambda>s s'. finalPayload s = finalPayload s')
     (processLine parse st l) (processLine parse st' l)"
  by (auto simp: processLine_def processEvent_def Let_def
      split: option.splits ChatStreamEvent.splits)

lemma processLines_drop_tokens:
  "finalPayload st = finalPayload st' \<Longrightarrow>
   rel_sum (\<lambda>x y. fst x = fst y) (\<lambda>s s'. finalPayload s = finalPayload s')
     (processLines parse st ls)
     (processLines parse st' (filter (\<lambda>l. \<not> isTokenLine parse l) ls))"
proof (induction ls arbitrary: st st')
  case Nil
  then show ?case by simp
next
  case (Cons l ls)
  show ?case
  proof (cases "isTokenLine parse l")
    case True
    have "finalPayload (st\<lparr>handled := handled st @ [the (parse l)]\<rparr>) = finalPayload st'"
      using Cons.prems by simp
    from Cons.IH [OF this] True show ?thesis
      by (simp add: processLine_token)
  next
    case False
    from processLine_same_payload [OF Cons.prems, of parse l]
    show ?thesis using False Cons.IH
      by (cases "processLine parse st l"; cases "processLine parse st' l") auto
  qed
qed

lemma snd_finish_rel:
  "rel_sum (\<lambda>x y. fst x = fst y) (\<lambda>s s'. finalPayload s = finalPayload s') a b \<Longrightarrow>
   snd (finish a) = snd (finish b)"
  by (cases a; cases b) (auto simp: finish_def split: option.splits prod.splits)

lemma readStream_token_free:
  "snd (readStream parse b) =
   snd (finish (processLines parse initialState (filter (\<lambda>l. \<not> isTokenLine parse l) (streamLines b))))"
  unfolding readStream_lines
  by (rule snd_finish_rel) (rule processLines_drop_tokens, simp)

lemma processLine_progress_terminal:
  "isProgressLine parse l \<or> isTerminalLine parse l \<Longrightarrow>
   \<exists>st0. processLine parse st l = Inr st0 \<and>
     (isTerminalLine parse l \<longrightarrow> finalPayload st0 \<noteq> None) \<and>
     (\<not> isTerminalLine parse l \<longrightarrow> finalPayload st0 = finalPayload st)"
  by (auto simp: isProgressLine_def isTerminalLine_def processLine_def processEvent_def Let_def
      split: option.splits ChatStreamEvent.splits)

lemma processLines_progress_terminal:
  "\<forall>l \<in> set ls. isProgressLine parse l \<or> isTerminalLine parse l \<Longrightarrow>
   \<exists>st1. processLines parse st ls = Inr st1 \<and>
     (finalPayload st \<noteq> None \<or> (\<exists>l \<in> set ls. isTerminalLine parse l) \<longrightarrow> finalPayload st1 \<noteq> None) \<and>
     ((\<forall>l \<in> set ls. \<not> isTerminalLine parse l) \<longrightarrow> finalPayload st1 = finalPayload st)"
proof (induction ls arbitrary: st)
  case Nil
  then show ?case by simp
next
  case (Cons l ls)
  from Cons.prems have l: "isProgressLine parse l \<or> isTerminalLine parse l" by simp
  from processLine_progress_terminal [OF l, of st] obtain st0 where
    st0: "processLine parse st l = Inr st0"
    and t: "isTerminalLine parse l \<longrightarrow> finalPayload st0 \<noteq> None"
    and nt: "\<not> isTerminalLine parse l \<longrightarrow> finalPayload st0 = finalPayload st"
    by blast
  from Cons.prems have "\<forall>l \<in> set ls. isProgressLine parse l \<or> isTerminalLine parse l" by simp
  from Cons.IH [OF this, of st0] obtain st1 where
    r: "processLines parse st0 ls = Inr st1"
    and a: "finalPayload st0 \<noteq> None \<or> (\<exists>l \<in> set ls. isTerminalLine parse l) \<longrightarrow> finalPayload st1 \<noteq> None"
    and b: "(\<forall>l \<in> set ls. \<not> isTerminalLine parse l) \<longrightarrow> finalPayload st1 = finalPayload st0"
    by blast
  show ?case using st0 t nt r a b by auto
qed

text \<open>
  C1. The outcome does not depend on how the text is cut into deliveries: two bodies
  whose decoded deliveries concatenate to the same text (and end with the same flushed
  text) make \<^verbatim>\<open>streamChatRequest\<close> call \<^verbatim>\<open>handleEvent\<close> on the same events
  in the same order and settle with the same value, a rejection included. The streaming
  decoder of the platform returns, for any cut of a byte sequence, pieces of the same
  decoded text.
\<close>

theorem chunking_independent:
  assumes "ok r1" and "ok r2" and "body r1 = Some b1" and "body r2 = Some b2"
    and "concat (chunks b1) = concat (chunks b2)" and "flushed b1 = flushed b2"
  shows "streamChatRequest parse r1 = streamChatRequest parse r2"
proof -
  from assms have "streamLines b1 = streamLines b2"
    by (simp add: streamLines_def)
  with assms show ?thesis
    by (simp add: streamChatRequest_def readStream_lines)
qed

theorem chunking_independent_witness:
  \<open>streamChatRequest exampleParse
      (streaming [''{"type":"token","token":"Hi"}'' @ LF @ ''{"type":"token","token":" there"}'' @ LF
                  @ ''{"type":"end","payload":{"answer":"Hello"}}'' @ LF])
   = streamChatRequest exampleParse
      (streaming [''{"type":"tok'', ''en","token":"Hi"}'' @ LF @ ''{"type":"token",'', [],
                  ''"token":" there"}'', LF @ ''{"type":"end","payload":{"answer":"Hello"}}'', LF])
   \<and> streamChatRequest exampleParse
      (streaming [''{"type":"tok'', ''en","token":"Hi"}'' @ LF @ ''{"type":"token",'', [],
                  ''"token":" there"}'', LF @ ''{"type":"end","payload":{"answer":"Hello"}}'', LF])
     = ([Token ''Hi'', Token '' there'', End helloPayload], Inr (normalizeChatResponse helloPayload))\<close>
proof -
  let ?b1 = \<open>\<lparr> chunks = [''{"type":"token","token":"Hi"}'' @ LF @ ''{"type":"token","token":" there"}'' @ LF
                  @ ''{"type":"end","payload":{"answer":"Hello"}}'' @ LF], flushed = [] \<rparr>\<close>
  let ?b2 = \<open>\<lparr> chunks = [''{"type":"tok'', ''en","token":"Hi"}'' @ LF @ ''{"type":"token",'', [],
                  ''"token":" there"}'', LF @ ''{"type":"end","payload":{"answer":"Hello"}}'', LF],
                flushed = [] \<rparr>\<close>
  have eq: "streamChatRequest exampleParse (streaming (chunks ?b1))
          = streamChatRequest exampleParse (streaming (chunks ?b2))"
    by (rule chunking_independent [where ?b1.0 = ?b1 and ?b2.0 = ?b2])
       (simp_all add: streaming_def)
  have val: "streamChatRequest exampleParse (streaming (chunks ?b2))
     = ([Token ''Hi'', Token '' there'', End helloPayload], Inr (normalizeChatResponse helloPayload))"
    by code_simp
  from eq val show ?thesis by simp
qed


text \<open>
  C2. Whenever \<^verbatim>\<open>streamChatRequest\<close> resolves, the value is the normalized payload of
  the last \<^verbatim>\<open>end\<close> or \<^verbatim>\<open>cached\<close> event it handled. What it settles with is
  the same for two bodies that differ only in their \<^verbatim>\<open>token\<close> lines, so no token
  text reaches the value. A body whose lines are all blank, \<^verbatim>\<open>token\<close>,
  \<^verbatim>\<open>sources\<close>, \<^verbatim>\<open>summary\<close>, \<^verbatim>\<open>end\<close> or \<^verbatim>\<open>cached\<close>, with at least one
  of the last two, does resolve.
\<close>

theorem final_payload_authoritative:
  "(streamChatRequest parse r = (calls, Inr resp) \<longrightarrow>
      map_option normalizeChatResponse (lastTerminal calls) = Some resp) \<and>
   (ok r1 \<and> body r1 = Some b1 \<and> ok r2 \<and> body r2 = Some b2 \<and>
    filter (\<lambda>l. \<not> isTokenLine parse l) (streamLines b1)
      = filter (\<lambda>l. \<not> isTokenLine parse l) (streamLines b2) \<longrightarrow>
      snd (streamChatRequest parse r1) = snd (streamChatRequest parse r2)) \<and>
   (ok r3 \<and> body r3 = Some b3 \<and>
    (\<forall>l \<in> set (streamLines b3). isProgressLine parse l \<or> isTerminalLine parse l) \<and>
    (\<exists>l \<in> set (streamLines b3). isTerminalLine parse l) \<longrightarrow>
      (\<exists>resp3. snd (streamChatRequest parse r3) = Inr resp3))"
proof (intro conjI impI)
  assume "streamChatRequest parse r = (calls, Inr resp)"
  from streamChatRequest_resolved [OF this]
  show "map_option normalizeChatResponse (lastTerminal calls) = Some resp" by auto
next
  assume a: "ok r1 \<and> body r1 = Some b1 \<and> ok r2 \<and> body r2 = Some b2 \<and>
    filter (\<lambda>l. \<not> isTokenLine parse l) (streamLines b1)
      = filter (\<lambda>l. \<not> isTokenLine parse l) (streamLines b2)"
  then have "snd (readStream parse b1) = snd (readStream parse b2)"
    by (simp add: readStream_token_free)
  with a show "snd (streamChatRequest parse r1) = snd (streamChatRequest parse r2)"
    by (simp add: streamChatRequest_def)
next
  assume a: "ok r3 \<and> body r3 = Some b3 \<and>
    (\<forall>l \<in> set (streamLines b3). isProgressLine parse l \<or> isTerminalLine parse l) \<and>
    (\<exists>l \<in> set (streamLines b3). isTerminalLine parse l)"
  then have "\<forall>l \<in> set (streamLines b3). isProgressLine parse l \<or> isTerminalLine parse l" by simp
  from processLines_progress_terminal [OF this, of initialState] a obtain st1 where
    "processLines parse initialState (streamLines b3) = Inr st1" and "finalPayload st1 \<noteq> None"
    by blast
  then have "\<exists>resp3. snd (readStream parse b3) = Inr resp3"
    by (auto simp: readStream_lines finish_def)
  with a show "\<exists>resp3. snd (streamChatRequest parse r3) = Inr resp3"
    by (simp add: streamChatRequest_def)
qed

theorem final_payload_authoritative_witness:
  \<open>map_option normalizeChatResponse
      (lastTerminal [Token ''Hi'', Token '' there'', End helloPayload])
     = Some (normalizeChatResponse helloPayload)
   \<and> snd (streamChatRequest exampleParse
        (streaming [''{"type":"token","token":"Hi"}'' @ LF, ''{"type":"token","token":" there"}'' @ LF,
                    ''{"type":"end","payload":{"answer":"Hello"}}'' @ LF]))
     = snd (streamChatRequest exampleParse
        (streaming [''{"type":"end","payload":{"answer":"Hello"}}'' @ LF]))
   \<and> snd (streamChatRequest exampleParse
        (streaming [''{"type":"token","token":"Hi"}'' @ LF, ''{"type":"token","token":" there"}'' @ LF,
                    ''{"type":"end","payload":{"answer":"Hello"}}'' @ LF]))
     = Inr (normalizeChatResponse helloPayload)
   \<and> answer (normalizeChatResponse helloPayload) = Some ''Hello''\<close>
proof -
  let ?c1 = \<open>[''{"type":"token","token":"Hi"}'' @ LF, ''{"type":"token","token":" there"}'' @ LF,
              ''{"type":"end","payload":{"answer":"Hello"}}'' @ LF]\<close>
  let ?c2 = \<open>[''{"type":"end","payload":{"answer":"Hello"}}'' @ LF]\<close>
  let ?b1 = "\<lparr> chunks = ?c1, flushed = [] \<rparr>"
  let ?b2 = "\<lparr> chunks = ?c2, flushed = [] \<rparr>"
  note inst = final_payload_authoritative [where parse = exampleParse
      and r = "streaming ?c1" and calls = "[Token ''Hi'', Token '' there'', End helloPayload]"
      and resp = "normalizeChatResponse helloPayload"
      and ?r1.0 = "streaming ?c1" and ?b1.0 = ?b1 and ?r2.0 = "streaming ?c2" and ?b2.0 = ?b2
      and ?r3.0 = "streaming ?c1" and ?b3.0 = ?b1]
  have run: "streamChatRequest exampleParse (streaming ?c1)
      = ([Token ''Hi'', Token '' there'', End helloPayload], Inr (normalizeChatResponse helloPayload))"
    by code_simp
  have flt: "filter (\<lambda>l. \<not> isTokenLine exampleParse l) (streamLines ?b1)
           = filter (\<lambda>l. \<not> isTokenLine exampleParse l) (streamLines ?b2)"
    by code_simp
  have all: "\<forall>l \<in> set (streamLines ?b1). isProgressLine exampleParse l \<or> isTerminalLine exampleParse l"
    by code_simp
  have ex: "\<exists>l \<in> set (streamLines ?b1). isTerminalLine exampleParse l"
    by code_simp
  have bodies: "ok (streaming ?c1)" "body (streaming ?c1) = Some ?b1"
    "ok (streaming ?c2)" "body (streaming ?c2) = Some ?b2"
    by (simp_all add: streaming_def)
  have ans: "answer (normalizeChatResponse helloPayload) = Some ''Hello''"
    by (simp add: normalizeChatResponse_def helloPayload_def)
  from inst run have one: "map_option normalizeChatResponse
      (lastTerminal [Token ''Hi'', Token '' there'', End helloPayload])
     = Some (normalizeChatResponse helloPayload)" by blast
  from inst bodies flt have two: "snd (streamChatRequest exampleParse (streaming ?c1))
      = snd (streamChatRequest exampleParse (streaming ?c2))" by blast
  from inst bodies all ex have "\<exists>resp3. snd (streamChatRequest exampleParse (streaming ?c1)) = Inr resp3"
    by blast
  with run have three: "snd (streamChatRequest exampleParse (streaming ?c1))
      = Inr (normalizeChatResponse helloPayload)" by simp
  from one two three ans show ?thesis by blast
qed







subsection \<open>Scrape orchestrator\<close>

lemma attemptStart_lower: "300 * k \<le> attemptStart env tabId k"
  by (induction k) auto

lemma attemptStart_mono: "i \<le> j \<Longrightarrow> attemptStart env tabId i \<le> attemptStart env tabId j"
  by (induction j) (auto simp: le_Suc_eq)

lemma attemptStart_ideal:
  "\<forall>i<k. scrapeMs env tabId i = 0 \<and> timerLag env tabId i = 0 \<Longrightarrow>
   attemptStart env tabId k = 300 * k"
  by (induction k) auto

lemma scrapeLoop_null_step:
  assumes "executeScrape env tabId k = Inr None" and "attemptStart env tabId k < timeoutMs"
  shows "scrapeLoop env tabId timeoutMs start (start + attemptStart env tabId k) k
       = scrapeLoop env tabId timeoutMs start (start + attemptStart env tabId (Suc k)) (Suc k)"
  using assms
  by (subst scrapeLoop.simps) (simp add: Let_def add.assoc)

lemma scrapeLoop_null_run:
  assumes "\<forall>i<n. executeScrape env tabId i = Inr None"
    and "\<forall>i<n. attemptStart env tabId i < timeoutMs"
  shows "scrapeLoop env tabId timeoutMs start start 0
       = scrapeLoop env tabId timeoutMs start (start + attemptStart env tabId n) n"
  using assms
proof (induction n)
  case 0
  show ?case by simp
next
  case (Suc n)
  then have "scrapeLoop env tabId timeoutMs start start 0
       = scrapeLoop env tabId timeoutMs start (start + attemptStart env tabId n) n"
    by simp
  also have "\<dots> = scrapeLoop env tabId timeoutMs start (start + attemptStart env tabId (Suc n)) (Suc n)"
    using Suc.prems by (intro scrapeLoop_null_step) simp_all
  finally show ?case .
qed

lemma scrapeProblemFromTab_found:
  assumes "\<forall>i<n. executeScrape env tabId i = Inr None"
    and "executeScrape env tabId n = Inr (Some p)"
    and "attemptStart env tabId n < timeoutMs"
  shows "scrapeProblemFromTab env now tabId timeoutMs
       = (now + attemptStart env tabId n + scrapeMs env tabId n, Inr p)"
proof -
  have "\<forall>i<n. attemptStart env tabId i < timeoutMs"
    using assms(3) attemptStart_mono [of _ n env tabId] by (meson le_less_trans less_imp_le)
  from scrapeLoop_null_run [OF assms(1) this]
  have "scrapeProblemFromTab env now tabId timeoutMs
      = scrapeLoop env tabId timeoutMs now (now + attemptStart env tabId n) n"
    by (simp add: scrapeProblemFromTab_def)
  also have "\<dots> = (now + attemptStart env tabId n + scrapeMs env tabId n, Inr p)"
    using assms(2,3) by (subst scrapeLoop.simps) (simp add: Let_def)
  finally show ?thesis .
qed

lemma scrapeProblemFromTab_timeout:
  assumes "\<forall>k. executeScrape env tabId k = Inr None"
  shows "\<exists>n. scrapeProblemFromTab env now tabId timeoutMs
        = (now + attemptStart env tabId n, Inl ''Could not detect a LeetCode problem on this page.'')
      \<and> timeoutMs \<le> attemptStart env tabId n
      \<and> (\<forall>i<n. attemptStart env tabId i < timeoutMs)
      \<and> 300 * n < timeoutMs + 300"
proof -
  define n where "n = (LEAST n. timeoutMs \<le> attemptStart env tabId n)"
  have ex: "timeoutMs \<le> attemptStart env tabId timeoutMs"
    using attemptStart_lower [of timeoutMs env tabId] by simp
  have a: "timeoutMs \<le> attemptStart env tabId n"
    unfolding n_def using ex by (rule LeastI)
  have b: "\<forall>i<n. attemptStart env tabId i < timeoutMs"
    unfolding n_def using not_less_Least by (auto simp: not_le [symmetric])
  from scrapeLoop_null_run [OF _ b] assms
  have "scrapeProblemFromTab env now tabId timeoutMs
      = scrapeLoop env tabId timeoutMs now (now + attemptStart env tabId n) n"
    by (simp add: scrapeProblemFromTab_def)
  also have "\<dots> = (now + attemptStart env tabId n, Inl ''Could not detect a LeetCode problem on this page.'')"
    using a by (subst scrapeLoop.simps) simp
  finally have c: "scrapeProblemFromTab env now tabId timeoutMs
        = (now + attemptStart env tabId n, Inl ''Could not detect a LeetCode problem on this page.'')" .
  have d: "300 * n < timeoutMs + 300"
  proof (cases n)
    case 0
    then show ?thesis by simp
  next
    case (Suc m)
    with b have "attemptStart env tabId m < timeoutMs" by simp
    with attemptStart_lower [of m env tabId] Suc show ?thesis by simp
  qed
  from a b c d show ?thesis by blast
qed

text \<open>
  C4, as amended. With calls counted from 0: when the calls before call \<open>n\<close> resolve
  with \<^verbatim>\<open>null\<close>, call \<open>n\<close> resolves with a \<^verbatim>\<open>Problem\<close>, and call \<open>n\<close> starts
  before the timeout has elapsed, \<^verbatim>\<open>scrapeProblemFromTab\<close> resolves with that
  \<^verbatim>\<open>Problem\<close> when call \<open>n\<close> returns. When the calls take no time and the timers
  fire on time, call \<open>n\<close> starts at 300 n ms, so a \<^verbatim>\<open>Problem\<close> found at attempt
  n + 1 with 300 (n + 1) below the timeout is returned within the timeout. When every
  call resolves with \<^verbatim>\<open>null\<close>, the promise rejects with ``Could not detect a
  LeetCode problem on this page.'' at the first loop test at which the timeout has
  elapsed: not before the timeout, after fewer than timeout / 300 + 1 calls, and exactly at
  12000 ms when the calls take no time and the timers fire on time.
\<close>

theorem scrape_orchestrator_bounded:
  "((\<forall>i<n. executeScrape env tabId i = Inr None) \<and> executeScrape env tabId n = Inr (Some p) \<and>
    attemptStart env tabId n < timeoutMs \<longrightarrow>
      scrapeProblemFromTab env now tabId timeoutMs
        = (now + attemptStart env tabId n + scrapeMs env tabId n, Inr p)) \<and>
   ((\<forall>i<n. executeScrape env tabId i = Inr None) \<and> executeScrape env tabId n = Inr (Some p) \<and>
    (\<forall>i\<le>n. scrapeMs env tabId i = 0 \<and> timerLag env tabId i = 0) \<and> 300 * n < timeoutMs \<longrightarrow>
      scrapeProblemFromTab env now tabId timeoutMs = (now + 300 * n, Inr p)) \<and>
   ((\<forall>k. executeScrape env tabId k = Inr None) \<longrightarrow>
      (\<exists>m. scrapeProblemFromTab env now tabId timeoutMs
             = (now + attemptStart env tabId m,
                Inl ''Could not detect a LeetCode problem on this page.'') \<and>
           timeoutMs \<le> attemptStart env tabId m \<and>
           (\<forall>i<m. attemptStart env tabId i < timeoutMs) \<and>
           300 * m < timeoutMs + 300)) \<and>
   ((\<forall>k. executeScrape env tabId k = Inr None \<and> scrapeMs env tabId k = 0 \<and> timerLag env tabId k = 0) \<longrightarrow>
      scrapeProblemFromTab env now tabId 12000
        = (now + 12000, Inl ''Could not detect a LeetCode problem on this page.''))"
proof (intro conjI impI)
  assume "(\<forall>i<n. executeScrape env tabId i = Inr None) \<and> executeScrape env tabId n = Inr (Some p) \<and>
    attemptStart env tabId n < timeoutMs"
  then show "scrapeProblemFromTab env now tabId timeoutMs
        = (now + attemptStart env tabId n + scrapeMs env tabId n, Inr p)"
    by (intro scrapeProblemFromTab_found) simp_all
next
  assume a: "(\<forall>i<n. executeScrape env tabId i = Inr None) \<and> executeScrape env tabId n = Inr (Some p) \<and>
    (\<forall>i\<le>n. scrapeMs env tabId i = 0 \<and> timerLag env tabId i = 0) \<and> 300 * n < timeoutMs"
  then have s: "attemptStart env tabId n = 300 * n"
    by (intro attemptStart_ideal) simp
  with a have "scrapeProblemFromTab env now tabId timeoutMs
        = (now + attemptStart env tabId n + scrapeMs env tabId n, Inr p)"
    by (intro scrapeProblemFromTab_found) simp_all
  with a s show "scrapeProblemFromTab env now tabId timeoutMs = (now + 300 * n, Inr p)"
    by simp
next
  assume "\<forall>k. executeScrape env tabId k = Inr None"
  then show "\<exists>m. scrapeProblemFromTab env now tabId timeoutMs
             = (now + attemptStart env tabId m,
                Inl ''Could not detect a LeetCode problem on this page.'') \<and>
           timeoutMs \<le> attemptStart env tabId m \<and>
           (\<forall>i<m. attemptStart env tabId i < timeoutMs) \<and>
           300 * m < timeoutMs + 300"
    by (rule scrapeProblemFromTab_timeout)
next
  assume a: "\<forall>k. executeScrape env tabId k = Inr None \<and> scrapeMs env tabId k = 0 \<and> timerLag env tabId k = 0"
  then have "\<forall>k. executeScrape env tabId k = Inr None" by simp
  from scrapeProblemFromTab_timeout [OF this, of now 12000] obtain m where
    r: "scrapeProblemFromTab env now tabId 12000
         = (now + attemptStart env tabId m, Inl ''Could not detect a LeetCode problem on this page.'')"
    and lo: "12000 \<le> attemptStart env tabId m" and hi: "300 * m < 12000 + 300"
    by blast
  from a have "attemptStart env tabId m = 300 * m"
    by (intro attemptStart_ideal) simp
  with lo hi have "attemptStart env tabId m = 12000" by presburger
  with r show "scrapeProblemFromTab env now tabId 12000
        = (now + 12000, Inl ''Could not detect a LeetCode problem on this page.'')"
    by simp
qed

lemma executeScrape_readyAt:
  "executeScrape (readyAt n ms) tabId k = Inr (if k = n then Some sampleProblem else None)"
  by (simp add: executeScrape_def readyAt_def)

lemma executeScrape_neverReady: "executeScrape (neverReady ms) tabId k = Inr None"
  by (simp add: executeScrape_def neverReady_def)

lemma attemptStart_readyAt: "attemptStart (readyAt n ms) tabId k = (ms + 300) * k"
  by (induction k) (simp_all add: readyAt_def)

theorem scrape_orchestrator_bounded_witness:
  "scrapeProblemFromTab (readyAt 2 100) 1000 7 12000 = (1900, Inr sampleProblem) \<and>
   scrapeProblemFromTab (readyAt 38 0) 1000 7 12000 = (12400, Inr sampleProblem) \<and>
   snd (scrapeProblemFromTab (neverReady 250) 1000 7 12000)
     = Inl ''Could not detect a LeetCode problem on this page.'' \<and>
   1000 + 12000 \<le> fst (scrapeProblemFromTab (neverReady 250) 1000 7 12000) \<and>
   scrapeProblemFromTab (neverReady 0) 1000 7 12000
     = (13000, Inl ''Could not detect a LeetCode problem on this page.'')"
proof -
  note a = scrape_orchestrator_bounded [where env = "readyAt 2 100" and n = 2 and tabId = 7
      and p = sampleProblem and timeoutMs = 12000 and now = 1000]
  note b = scrape_orchestrator_bounded [where env = "readyAt 38 0" and n = 38 and tabId = 7
      and p = sampleProblem and timeoutMs = 12000 and now = 1000]
  note c = scrape_orchestrator_bounded [where env = "neverReady 250" and tabId = 7
      and timeoutMs = 12000 and now = 1000]
  note d = scrape_orchestrator_bounded [where env = "neverReady 0" and tabId = 7 and now = 1000]
  have a1: "\<forall>i<2. executeScrape (readyAt 2 100) 7 i = Inr None"
    and a2: "executeScrape (readyAt 2 100) 7 2 = Inr (Some sampleProblem)"
    and a3: "attemptStart (readyAt 2 100) 7 2 < 12000"
    and a4: "attemptStart (readyAt 2 100) 7 2 = 800" and a5: "scrapeMs (readyAt 2 100) 7 2 = 100"
    by (simp_all add: executeScrape_readyAt attemptStart_readyAt) (simp add: readyAt_def)
  have b1: "\<forall>i<38. executeScrape (readyAt 38 0) 7 i = Inr None"
    and b2: "executeScrape (readyAt 38 0) 7 38 = Inr (Some sampleProblem)"
    and b3: "\<forall>i\<le>38. scrapeMs (readyAt 38 0) 7 i = 0 \<and> timerLag (readyAt 38 0) 7 i = 0"
    and b4: "300 * 38 < (12000::nat)"
    by (simp_all add: executeScrape_readyAt) (simp add: readyAt_def)
  have c1: "\<forall>k. executeScrape (neverReady 250) 7 k = Inr None"
    by (simp add: executeScrape_neverReady)
  have d1: "\<forall>k. executeScrape (neverReady 0) 7 k = Inr None \<and> scrapeMs (neverReady 0) 7 k = 0
              \<and> timerLag (neverReady 0) 7 k = 0"
    by (simp add: executeScrape_neverReady) (simp add: neverReady_def)
  from a a1 a2 a3 have "scrapeProblemFromTab (readyAt 2 100) 1000 7 12000
      = (1000 + attemptStart (readyAt 2 100) 7 2 + scrapeMs (readyAt 2 100) 7 2, Inr sampleProblem)"
    by blast
  then have one: "scrapeProblemFromTab (readyAt 2 100) 1000 7 12000 = (1900, Inr sampleProblem)"
    by (simp add: a4 a5)
  from b b1 b2 b3 b4 have "scrapeProblemFromTab (readyAt 38 0) 1000 7 12000
      = (1000 + 300 * 38, Inr sampleProblem)" by blast
  then have two: "scrapeProblemFromTab (readyAt 38 0) 1000 7 12000 = (12400, Inr sampleProblem)"
    by simp
  from c c1 obtain m where
    "scrapeProblemFromTab (neverReady 250) 1000 7 12000
       = (1000 + attemptStart (neverReady 250) 7 m,
          Inl ''Could not detect a LeetCode problem on this page.'')"
    and "12000 \<le> attemptStart (neverReady 250) 7 m" by blast
  then have three: "snd (scrapeProblemFromTab (neverReady 250) 1000 7 12000)
     = Inl ''Could not detect a LeetCode problem on this page.''"
    and four: "1000 + 12000 \<le> fst (scrapeProblemFromTab (neverReady 250) 1000 7 12000)"
    by simp_all
  from d d1 have five: "scrapeProblemFromTab (neverReady 0) 1000 7 12000
     = (13000, Inl ''Could not detect a LeetCode problem on this page.'')" by simp
  from one two three four five show ?thesis by blast
qed

text \<open>
  C4 as stated fails when the calls take time. With 300 ms per call the problem that
  attempt 30 would find (30 times 300 is below 12000) is never asked for: the loop test
  fails after 20 rounds of 600 ms and the promise rejects. And a first call that needs
  13 s resolves with its \<^verbatim>\<open>Problem\<close> after the timeout.
\<close>

theorem slow_attempts_starve_the_poll:
  "executeScrape (readyAt 29 300) 7 29 = Inr (Some sampleProblem) \<and>
   30 * 300 < (12000::nat) \<and>
   scrapeProblemFromTab (readyAt 29 300) 1000 7 12000
     = (13000, Inl ''Could not detect a LeetCode problem on this page.'') \<and>
   executeScrape (readyAt 0 13000) 7 0 = Inr (Some sampleProblem) \<and>
   scrapeProblemFromTab (readyAt 0 13000) 1000 7 12000 = (14000, Inr sampleProblem)"
proof -
  have nulls: "\<forall>i<20. executeScrape (readyAt 29 300) 7 i = Inr None"
    by (simp add: executeScrape_readyAt)
  have early: "\<forall>i<20. attemptStart (readyAt 29 300) 7 i < 12000"
    by (simp add: attemptStart_readyAt)
  have "scrapeProblemFromTab (readyAt 29 300) 1000 7 12000
      = scrapeLoop (readyAt 29 300) 7 12000 1000 (1000 + attemptStart (readyAt 29 300) 7 20) 20"
    unfolding scrapeProblemFromTab_def by (rule scrapeLoop_null_run [OF nulls early])
  also have "\<dots> = (13000, Inl ''Could not detect a LeetCode problem on this page.'')"
    by (subst scrapeLoop.simps) (simp add: attemptStart_readyAt)
  finally have slow: "scrapeProblemFromTab (readyAt 29 300) 1000 7 12000
      = (13000, Inl ''Could not detect a LeetCode problem on this page.'')" .
  have ms: "scrapeMs (readyAt 0 13000) 7 0 = 13000"
    by (simp add: readyAt_def)
  have late: "scrapeProblemFromTab (readyAt 0 13000) 1000 7 12000 = (14000, Inr sampleProblem)"
    unfolding scrapeProblemFromTab_def
    by (subst scrapeLoop.simps) (simp add: executeScrape_readyAt Let_def ms)
  from slow late show ?thesis by (simp add: executeScrape_readyAt)
qed

subsection \<open>HTML content parser\<close>

lemma pre_descendants:
  "map node (filter (\<lambda>d. matches (Tag ''pre'') (node d)) (descendants parent ns)) = preBlocks ns"
  by (induction parent ns rule: descendants.induct) auto

lemma examplesOf_preBlocks:
  "examplesOf root =
     filter (\<lambda>s. s \<noteq> []) (map (\<lambda>b. trim (textContent b)) (preBlocks (childNodes (node root))))"
proof -
  have "map (\<lambda>n. trim (textContent (node n))) (querySelectorAll root (Tag ''pre''))
      = map (\<lambda>b. trim (textContent b)) (map node (querySelectorAll root (Tag ''pre'')))"
    by simp
  also have "\<dots> = map (\<lambda>b. trim (textContent b)) (preBlocks (childNodes (node root)))"
    unfolding querySelectorAll_def pre_descendants ..
  finally show ?thesis by (simp add: examplesOf_def)
qed

lemma find_filter: "find P (filter Q xs) = find (\<lambda>x. Q x \<and> P x) xs"
  by (induction xs) auto

lemma find_append_cases:
  "find P (xs @ ys) = (case find P xs of None \<Rightarrow> find P ys | Some x \<Rightarrow> Some x)"
  by (induction xs) auto

lemma label_descendants:
  "(find (\<lambda>d. matches (Tag ''strong'') (node d) \<and> isConstraintLabel (node d))
           (descendants parent ns) = None
      \<longrightarrow> constraintLabel (node parent) (after parent) ns = None) \<and>
   (\<forall>l. find (\<lambda>d. matches (Tag ''strong'') (node d) \<and> isConstraintLabel (node d))
           (descendants parent ns) = Some l
      \<longrightarrow> (\<exists>p. up l = Some p \<and>
             constraintLabel (node parent) (after parent) ns = Some (node p, after p)))"
proof (induction parent ns rule: descendants.induct)
  case (1 parent)
  show ?case by simp
next
  case (2 parent s rest)
  then show ?case by simp
next
  case (3 parent name attrs kids rest)
  let ?l = "Loc (Element name attrs kids) rest (Some parent)"
  let ?P = "\<lambda>d. matches (Tag ''strong'') (node d) \<and> isConstraintLabel (node d)"
  consider (label) "name = ''strong''" "isConstraintLabel (Element name attrs kids)"
    | (other) "\<not> ?P ?l"
    by auto
  then show ?case
  proof cases
    case label
    then show ?thesis by simp
  next
    case other
    then have no: "\<not> (name = ''strong'' \<and> isConstraintLabel (Element name attrs kids))"
      by simp
    have f: "find ?P (descendants parent (Element name attrs kids # rest))
        = (case find ?P (descendants ?l kids) of
             None \<Rightarrow> find ?P (descendants parent rest) | Some x \<Rightarrow> Some x)"
      using other by (auto simp: find_append_cases)
    have c: "constraintLabel (node parent) (after parent) (Element name attrs kids # rest)
        = (case constraintLabel (Element name attrs kids) rest kids of
             Some found \<Rightarrow> Some found
           | None \<Rightarrow> constraintLabel (node parent) (after parent) rest)"
      using no by (simp only: constraintLabel.simps if_False)
    show ?thesis
    proof (cases "find ?P (descendants ?l kids)")
      case None
      with "3.IH"(1) have "constraintLabel (Element name attrs kids) rest kids = None" by simp
      with None "3.IH"(2) show ?thesis unfolding f c by simp
    next
      case (Some a)
      with "3.IH"(1) obtain p where "up a = Some p"
        and "constraintLabel (Element name attrs kids) rest kids = Some (node p, after p)"
        by auto
      with Some show ?thesis unfolding f c by simp
    qed
  qed
qed

lemma filter_dropWhile:
  "filter P xs = (case dropWhile (\<lambda>x. \<not> P x) xs of [] \<Rightarrow> [] | e # rest \<Rightarrow> e # filter P rest)"
  by (induction xs) auto

lemma node_childElements: "map node (childElements parent ns) = filter isElement ns"
  by (induction parent ns rule: childElements.induct) auto

lemma listItems_itemTexts: "listItems l = itemTexts (node l)"
proof -
  have "map (\<lambda>item. trim (textContent (node item))) (children l)
      = map (\<lambda>item. trim (textContent item)) (map node (children l))" by simp
  also have "\<dots> = map (\<lambda>item. trim (textContent item)) (filter isElement (childNodes (node l)))"
    unfolding children_def node_childElements ..
  finally show ?thesis by (simp add: listItems_def itemTexts_def)
qed

lemma dropWhile_isElement_hd:
  "dropWhile (\<lambda>n. \<not> isElement n) xs = e # rest \<Longrightarrow> isElement e"
  using hd_dropWhile [of "\<lambda>n. \<not> isElement n" xs] by auto

lemma constraintsOf_spec: "constraintsOf (Loc b [] None) = constraintsSpec b"
proof -
  let ?root = "Loc b [] None"
  let ?found = "find (\<lambda>d. matches (Tag ''strong'') (node d) \<and> isConstraintLabel (node d))
           (descendants ?root (childNodes b))"
  have f: "find (\<lambda>n. isConstraintLabel (node n)) (querySelectorAll ?root (Tag ''strong'')) = ?found"
    by (simp add: querySelectorAll_def find_filter)
  note l = label_descendants [of ?root "childNodes b"]
  show ?thesis
  proof (cases ?found)
    case None
    with l have "constraintLabel b [] (childNodes b) = None" by simp
    with None f show ?thesis by (simp add: constraintsOf_def constraintsSpec_def)
  next
    case (Some c)
    with l obtain p where p: "up c = Some p"
      and cl: "constraintLabel b [] (childNodes b) = Some (node p, after p)"
      by auto
    have lhs: "constraintsOf ?root =
        (case nextElementSibling p of
           None \<Rightarrow> trim (textContent (node p))
         | Some listCandidate \<Rightarrow>
             if tagName (node listCandidate) = ''UL'' \<or> tagName (node listCandidate) = ''OL''
             then listItems listCandidate
             else trim (textContent (node p)))"
      using Some f p by (simp add: constraintsOf_def parentElement_def)
    have rhs: "constraintsSpec b =
        (case filter isElement (after p) of
             [] \<Rightarrow> trim (textContent (node p))
           | sibling # others \<Rightarrow>
               if isList sibling then itemTexts sibling else trim (textContent (node p)))"
      using cl by (simp add: constraintsSpec_def)
    show ?thesis
    proof (cases "dropWhile (\<lambda>n. \<not> isElement n) (after p)")
      case Nil
      have "nextElementSibling p = None"
        unfolding nextElementSibling_def Nil by simp
      moreover have "filter isElement (after p) = []"
        unfolding filter_dropWhile [of isElement "after p"] Nil by simp
      ultimately show ?thesis by (simp add: lhs rhs)
    next
      case (Cons e rest)
      from dropWhile_isElement_hd [OF Cons] have e: "isElement e" .
      have "nextElementSibling p = Some (Loc e rest (up p))"
        unfolding nextElementSibling_def Cons by simp
      moreover have "filter isElement (after p) = e # filter isElement rest"
        unfolding filter_dropWhile [of isElement "after p"] Cons by simp
      ultimately show ?thesis using e by (simp add: lhs rhs isList_def listItems_itemTexts)
    qed
  qed
qed

text \<open>
  C6, as amended. The \<^verbatim>\<open>examples\<close> of \<^verbatim>\<open>parseHtmlContent\<close> are the trimmed texts
  of the \<^verbatim>\<open>pre\<close> elements of the parsed fragment in document order, without the
  empty ones. So a fragment with a \<^verbatim>\<open>pre\<close> element whose text is not blank has at
  least one example, and the examples are a subsequence of the trimmed texts of the
  \<^verbatim>\<open>pre\<close> elements in document order.
\<close>

theorem examples_are_pre_blocks:
  "parsedExamples (parseHtmlContent domParser html)
     = filter (\<lambda>s. s \<noteq> [])
         (map (\<lambda>b. trim (textContent b)) (preBlocks (childNodes (domParser html)))) \<and>
   ((\<exists>b \<in> set (preBlocks (childNodes (domParser html))). trim (textContent b) \<noteq> []) \<longrightarrow>
      1 \<le> length (parsedExamples (parseHtmlContent domParser html))) \<and>
   subseq (parsedExamples (parseHtmlContent domParser html))
     (map (\<lambda>b. trim (textContent b)) (preBlocks (childNodes (domParser html))))"
proof -
  let ?texts = "map (\<lambda>b. trim (textContent b)) (preBlocks (childNodes (domParser html)))"
  have eq: "parsedExamples (parseHtmlContent domParser html) = filter (\<lambda>s. s \<noteq> []) ?texts"
    by (simp add: parseHtmlContent_def Let_def examplesOf_preBlocks)
  have len: "1 \<le> length (filter (\<lambda>s. s \<noteq> []) ?texts)"
    if "\<exists>b \<in> set (preBlocks (childNodes (domParser html))). trim (textContent b) \<noteq> []"
  proof -
    from that obtain b where "b \<in> set (preBlocks (childNodes (domParser html)))"
      and "trim (textContent b) \<noteq> []" by blast
    then have "trim (textContent b) \<in> set (filter (\<lambda>s. s \<noteq> []) ?texts)" by auto
    then have "filter (\<lambda>s. s \<noteq> []) ?texts \<noteq> []" by (metis empty_iff empty_set)
    then show ?thesis by (cases "filter (\<lambda>s. s \<noteq> []) ?texts") simp_all
  qed
  have sub: "subseq (filter (\<lambda>s. s \<noteq> []) ?texts) ?texts" by simp
  from eq len sub show ?thesis by simp
qed

theorem examples_are_pre_blocks_witness:
  \<open>parsedExamples (parseHtmlContent (parserOf sampleFragments)
      ''<p>Find two numbers.</p><pre> nums = [2,7] </pre><pre>   </pre><pre>nums = [3,3]</pre>'')
     = [''nums = [2,7]'', ''nums = [3,3]''] \<and>
   1 \<le> length (parsedExamples (parseHtmlContent (parserOf sampleFragments)
      ''<p>Find two numbers.</p><pre> nums = [2,7] </pre><pre>   </pre><pre>nums = [3,3]</pre>''))\<close>
proof -
  let ?html = \<open>''<p>Find two numbers.</p><pre> nums = [2,7] </pre><pre>   </pre><pre>nums = [3,3]</pre>''\<close>
  note inst = examples_are_pre_blocks [of "parserOf sampleFragments" ?html]
  have h: "\<exists>b \<in> set (preBlocks (childNodes (parserOf sampleFragments ?html))).
             trim (textContent b) \<noteq> []"
    by code_simp
  have v: "filter (\<lambda>s. s \<noteq> [])
         (map (\<lambda>b. trim (textContent b)) (preBlocks (childNodes (parserOf sampleFragments ?html))))
      = [''nums = [2,7]'', ''nums = [3,3]'']"
    by code_simp
  from inst h v show ?thesis by simp
qed

text \<open>
  C6 as stated fails on a fragment whose only \<^verbatim>\<open>pre\<close> element is blank: it
  contains a preformatted block and has no example.
\<close>

theorem blank_pre_block_gives_no_example:
  \<open>preBlocks (childNodes (parserOf sampleFragments ''<p>Text</p><pre>   </pre>''))
     = [Element ''pre'' [] [Text ''   '']] \<and>
   parsedExamples (parseHtmlContent (parserOf sampleFragments) ''<p>Text</p><pre>   </pre>'') = [] \<and>
   \<not> 1 \<le> length (parsedExamples
          (parseHtmlContent (parserOf sampleFragments) ''<p>Text</p><pre>   </pre>''))\<close>
  by code_simp

text \<open>
  C7, as amended. Let the label be the first \<^verbatim>\<open>strong\<close> element of the parsed
  fragment, in document order, whose text contains ``constraint'' in any letter case.
  Without a label the \<^verbatim>\<open>constraints\<close> are ``Constraints not detected.'' With a
  label, look at the first element that follows the label's parent: when it is a
  \<^verbatim>\<open>ul\<close> or \<^verbatim>\<open>ol\<close>, the constraints are the trimmed texts of its element
  children that are not blank, joined by line feeds; when it is another element, or when
  no element follows the parent, they are the trimmed text of the label's parent.
\<close>

theorem constraints_from_parent_sibling:
  "(constraintLabel (domParser html) [] (childNodes (domParser html)) = None \<longrightarrow>
      parsedConstraints (parseHtmlContent domParser html) = ''Constraints not detected.'') \<and>
   (constraintLabel (domParser html) [] (childNodes (domParser html)) = Some (parent, following) \<and>
    filter isElement following = sibling # others \<and> isList sibling \<longrightarrow>
      parsedConstraints (parseHtmlContent domParser html) = itemTexts sibling) \<and>
   (constraintLabel (domParser html) [] (childNodes (domParser html)) = Some (parent, following) \<and>
    filter isElement following = sibling # others \<and> \<not> isList sibling \<longrightarrow>
      parsedConstraints (parseHtmlContent domParser html) = trim (textContent parent)) \<and>
   (constraintLabel (domParser html) [] (childNodes (domParser html)) = Some (parent, following) \<and>
    filter isElement following = [] \<longrightarrow>
      parsedConstraints (parseHtmlContent domParser html) = trim (textContent parent))"
proof -
  have "parsedConstraints (parseHtmlContent domParser html) = constraintsSpec (domParser html)"
    by (simp add: parseHtmlContent_def Let_def constraintsOf_spec)
  then show ?thesis by (simp add: constraintsSpec_def)
qed

theorem constraints_from_parent_sibling_witness:
  \<open>parsedConstraints (parseHtmlContent (parserOf sampleFragments) ''<p>No label here</p>'')
     = ''Constraints not detected.'' \<and>
   parsedConstraints (parseHtmlContent (parserOf sampleFragments)
      ''<p><strong>Constraints:</strong></p><ul><li>1 <= n <= 10</li><li>n is even</li></ul>'')
     = ''1 <= n <= 10'' @ [CHR 0x0A] @ ''n is even'' \<and>
   parsedConstraints (parseHtmlContent (parserOf sampleFragments)
      ''<p><strong>Constraints:</strong> n is positive</p><p>Follow up</p>'')
     = ''Constraints: n is positive''\<close>
proof -
  let ?P = "parserOf sampleFragments"
  let ?h0 = \<open>''<p>No label here</p>''\<close>
  let ?h1 = \<open>''<p><strong>Constraints:</strong></p><ul><li>1 <= n <= 10</li><li>n is even</li></ul>''\<close>
  let ?h2 = \<open>''<p><strong>Constraints:</strong> n is positive</p><p>Follow up</p>''\<close>
  let ?ul = "Element ''ul'' [] [Element ''li'' [] [Text ''1 <= n <= 10''],
                           Element ''li'' [] [Text ''n is even'']]"
  let ?p1 = "Element ''p'' [] [Element ''strong'' [] [Text ''Constraints:'']]"
  let ?p2 = "Element ''p'' [] [Element ''strong'' [] [Text ''Constraints:''], Text '' n is positive'']"
  let ?next = "Element ''p'' [] [Text ''Follow up'']"
  have a: "constraintLabel (?P ?h0) [] (childNodes (?P ?h0)) = None" by code_simp
  have b: "constraintLabel (?P ?h1) [] (childNodes (?P ?h1)) = Some (?p1, [?ul])" by code_simp
  have b1: "filter isElement [?ul] = ?ul # []" "isList ?ul" by code_simp+
  have b2: "itemTexts ?ul = ''1 <= n <= 10'' @ [CHR 0x0A] @ ''n is even''" by code_simp
  have c: "constraintLabel (?P ?h2) [] (childNodes (?P ?h2)) = Some (?p2, [?next])" by code_simp
  have c1: "filter isElement [?next] = ?next # []" "\<not> isList ?next" by code_simp+
  have c2: "trim (textContent ?p2) = ''Constraints: n is positive''" by code_simp
  from constraints_from_parent_sibling [of ?P ?h0] a
  have one: "parsedConstraints (parseHtmlContent ?P ?h0) = ''Constraints not detected.''"
    by blast
  from constraints_from_parent_sibling [of ?P ?h1 ?p1 "[?ul]" ?ul "[]"] b b1
  have "parsedConstraints (parseHtmlContent ?P ?h1) = itemTexts ?ul" by blast
  with b2 have two: "parsedConstraints (parseHtmlContent ?P ?h1)
      = ''1 <= n <= 10'' @ [CHR 0x0A] @ ''n is even''" by simp
  from constraints_from_parent_sibling [of ?P ?h2 ?p2 "[?next]" ?next "[]"] c c1
  have "parsedConstraints (parseHtmlContent ?P ?h2) = trim (textContent ?p2)" by blast
  with c2 have three: "parsedConstraints (parseHtmlContent ?P ?h2) = ''Constraints: n is positive''"
    by simp
  from one two three show ?thesis by blast
qed

text \<open>
  C7 as stated fails on the usual markup, a paragraph that holds the label followed by
  the list: nothing follows the label inside its paragraph, so the claim gives the
  paragraph's text, and the code gives the items of the list that follows the paragraph.
\<close>

theorem list_after_label_parent_not_after_label:
  \<open>parsedConstraints (parseHtmlContent (parserOf sampleFragments)
      ''<p><strong>Constraints:</strong></p><ul><li>1 <= n <= 10</li><li>n is even</li></ul>'')
     = ''1 <= n <= 10'' @ [CHR 0x0A] @ ''n is even'' \<and>
   constraintsAsClaimed (parserOf sampleFragments
      ''<p><strong>Constraints:</strong></p><ul><li>1 <= n <= 10</li><li>n is even</li></ul>'')
     = ''Constraints:'' \<and>
   parsedConstraints (parseHtmlContent (parserOf sampleFragments)
      ''<p><strong>Constraints:</strong></p><ul><li>1 <= n <= 10</li><li>n is even</li></ul>'')
     \<noteq> constraintsAsClaimed (parserOf sampleFragments
      ''<p><strong>Constraints:</strong></p><ul><li>1 <= n <= 10</li><li>n is even</li></ul>'')\<close>
  by code_simp

subsection \<open>Page scraper\<close>

lemma extractFromCandidate_slug:
  assumes "extractFromCandidate page c slg = Inr (Some parsed)" and "slg \<noteq> []"
  shows "foundSlug parsed = slg"
  using assms
  by (auto simp: extractFromCandidate_def Let_def
      split: if_splits sum.splits option.splits Json.splits)

lemma walk_slug:
  "walk page slg stack = Inr (Some parsed) \<Longrightarrow> slg \<noteq> [] \<Longrightarrow> foundSlug parsed = slg"
proof (induction page slg stack rule: walk.induct)
  case (3 page slg entries stack)
  then show ?case
    by (auto split: if_splits sum.splits option.splits dest: extractFromCandidate_slug)
qed simp_all

lemma extractFromNextData_slug:
  "extractFromNextData page = Inr (Some parsed) \<Longrightarrow> currentSlug page \<noteq> [] \<Longrightarrow>
   foundSlug parsed = currentSlug page"
  by (auto simp: extractFromNextData_def simp del: walk.simps
      split: option.splits Json.splits dest: walk_slug)

lemma subvalues_enqueue:
  "set (concat (map subvalues (enqueue v stack)))
     \<subseteq> set (subvalues v) \<union> set (concat (map subvalues stack))"
  by (cases v) auto

lemma subvalues_fold_enqueue:
  "set (concat (map subvalues (fold enqueue vs stack)))
     \<subseteq> set (concat (map subvalues vs)) \<union> set (concat (map subvalues stack))"
proof (induction vs arbitrary: stack)
  case Nil
  show ?case by simp
next
  case (Cons v vs)
  have ih: "set (concat (map subvalues (fold enqueue vs (enqueue v stack))))
      \<subseteq> set (concat (map subvalues vs)) \<union> set (concat (map subvalues (enqueue v stack)))"
    by (rule Cons.IH)
  have a: "fold enqueue (v # vs) stack = fold enqueue vs (enqueue v stack)" by simp
  have b: "set (concat (map subvalues (v # vs)))
      = set (subvalues v) \<union> set (concat (map subvalues vs))" by simp
  show ?case unfolding a b using ih subvalues_enqueue [of v stack] by blast
qed

lemma walk_all_discarded:
  "\<forall>c \<in> set (concat (map subvalues stack)).
      isCandidate c \<longrightarrow> extractFromCandidate page c slg = Inr None \<Longrightarrow>
   walk page slg stack = Inr None"
proof (induction page slg stack rule: walk.induct)
  case (1 page slg)
  show ?case by simp
next
  case (2 page slg items stack)
  then show ?case by auto
next
  case (3 page slg entries stack)
  let ?c = "JObj entries"
  have here: "(if isCandidate ?c then extractFromCandidate page ?c slg else Inr None) = Inr None"
    using "3.prems" by simp
  have "set (concat (map subvalues (fold enqueue (map snd entries) stack)))
      \<subseteq> set (concat (map subvalues (?c # stack)))"
    using subvalues_fold_enqueue [of "map snd entries" stack] by (auto simp: comp_def)
  with "3.prems" have "\<forall>c \<in> set (concat (map subvalues (fold enqueue (map snd entries) stack))).
      isCandidate c \<longrightarrow> extractFromCandidate page c slg = Inr None"
    by blast
  with "3.IH" here have "walk page slg (fold enqueue (map snd entries) stack) = Inr None"
    by simp
  with here show ?case by simp
qed simp_all

lemma extractFromNextData_all_discarded:
  assumes "nextData page = Some d"
    and "\<forall>c \<in> set (subvalues d).
           isCandidate c \<longrightarrow> extractFromCandidate page c (currentSlug page) = Inr None"
  shows "extractFromNextData page = Inr None"
proof (cases d)
  case (JArr items)
  with assms(2) have "\<forall>c \<in> set (concat (map subvalues (rev items))).
      isCandidate c \<longrightarrow> extractFromCandidate page c (currentSlug page) = Inr None"
    by auto
  from walk_all_discarded [OF this] JArr assms(1) show ?thesis
    by (simp add: extractFromNextData_def)
next
  case (JObj entries)
  with assms(2) have "\<forall>c \<in> set (concat (map subvalues [JObj entries])).
      isCandidate c \<longrightarrow> extractFromCandidate page c (currentSlug page) = Inr None"
    by auto
  from walk_all_discarded [OF this] JObj assms(1) show ?thesis
    by (simp add: extractFromNextData_def)
qed (use assms(1) in \<open>simp_all add: extractFromNextData_def\<close>)

lemma extractFromCandidate_mismatch:
  assumes "toSlugOf (orElse (orElse (getProp c ''titleSlug'') (getProp c ''slug''))
             (orElse (orElse (getProp c ''title'') (getProp c ''questionTitle''))
                (questionProp c ''title''))) = Inr candidateSlug"
    and "slg \<noteq> []" and "candidateSlug \<noteq> []" and "candidateSlug \<noteq> slg"
  shows "extractFromCandidate page c slg = Inr None"
  using assms by (simp add: extractFromCandidate_def Let_def)

text \<open>
  C5 on the DOM extractor. The structured-data extractor discards a record whose slug
  differs from the navigated one (the lemmas above), and the network extractor asks for
  the navigated slug. \<^verbatim>\<open>extractFromDom\<close> derives the slug from the title it reads
  and compares it with nothing: on a page that is already at ``add-two-numbers'' and
  still shows ``Two Sum'', it returns the problem with slug ``two-sum'', and so does the
  page function, also when the embedded data holds the stale record and the
  structured-data extractor has discarded it.
\<close>

theorem dom_extractor_keeps_mismatching_slug:
  "currentSlug stalePage = ''add-two-numbers'' \<and>
   extractFromNextData stalePage = Inr None \<and>
   map_option foundSlug (extractFromDom stalePage) = Some ''two-sum'' \<and>
   scrapeProblemInPage stalePage
     = Inr (Some \<lparr> title = ''Two Sum'', difficulty = Easy,
                    description = ''Given an array of integers.'',
                    examples = [''Input: nums = [2,7,11,15]''],
                    constraints = ''Constraints not detected.'',
                    url = ''https://leetcode.com/problems/add-two-numbers/description/'',
                    slug = ''two-sum'', problemNumber = ''1'', timestamp = 1000 \<rparr>) \<and>
   extractFromNextData (stalePage\<lparr>nextData := Some staleData\<rparr>) = Inr None \<and>
   map_option slug (projr (scrapeProblemInPage (stalePage\<lparr>nextData := Some staleData\<rparr>)))
     = Some ''two-sum''"
  by code_simp

subsection \<open>Message handler\<close>

text \<open>
  C9. For a message whose \<^verbatim>\<open>type\<close> is \<^verbatim>\<open>OPEN_SIDE_PANEL\<close> or
  \<^verbatim>\<open>GET_ACTIVE_PROBLEM\<close> the listener returns \<^verbatim>\<open>true\<close> and
  \<^verbatim>\<open>sendResponse\<close> is called exactly once, whatever the browser answers: the panel
  opens or fails to, the query fails, no tab is active, the scrape finds a problem,
  fails or times out.
\<close>

theorem handler_responds_exactly_once:
  assumes "getProp message ''type'' = Some (JStr ''OPEN_SIDE_PANEL'') \<or>
           getProp message ''type'' = Some (JStr ''GET_ACTIVE_PROBLEM'')"
  shows "fst (onMessage env message) = True \<and> length (snd (onMessage env message)) = 1"
proof -
  from assms obtain entries where m: "message = JObj entries"
    by (cases message) auto
  from assms show ?thesis unfolding m
    by (auto simp: onMessage_def split: QueryResult.splits option.splits sum.splits)
qed

theorem handler_responds_exactly_once_witness:
  "onMessage (chromeWith (ActiveTabs [\<lparr>tabIdent = Some 7\<rparr>]) (readyAt 2 100))
      (JObj [(''type'', JStr ''OPEN_SIDE_PANEL'')]) = (True, [Succeeded]) \<and>
   onMessage (chromeWith (QueryFailed (Some ''No window'')) (readyAt 2 100))
      (JObj [(''type'', JStr ''OPEN_SIDE_PANEL'')]) = (True, [Failed (Some ''No window'')]) \<and>
   onMessage (chromeWith (ActiveTabs [\<lparr>tabIdent = Some 7\<rparr>]) (readyAt 0 100))
      (JObj [(''type'', JStr ''GET_ACTIVE_PROBLEM'')]) = (True, [WithProblem sampleProblem]) \<and>
   onMessage (chromeWith (ActiveTabs []) (readyAt 0 100))
      (JObj [(''type'', JStr ''GET_ACTIVE_PROBLEM'')]) = (True, [Failed (Some ''No active tab detected.'')])"
proof -
  let ?open = "JObj [(''type'', JStr ''OPEN_SIDE_PANEL'')]"
  let ?get = "JObj [(''type'', JStr ''GET_ACTIVE_PROBLEM'')]"
  have o: "getProp ?open ''type'' = Some (JStr ''OPEN_SIDE_PANEL'') \<or>
           getProp ?open ''type'' = Some (JStr ''GET_ACTIVE_PROBLEM'')" by simp
  have g: "getProp ?get ''type'' = Some (JStr ''OPEN_SIDE_PANEL'') \<or>
           getProp ?get ''type'' = Some (JStr ''GET_ACTIVE_PROBLEM'')" by simp
  note a = handler_responds_exactly_once [OF o, of "chromeWith (ActiveTabs [\<lparr>tabIdent = Some 7\<rparr>]) (readyAt 2 100)"]
  note b = handler_responds_exactly_once [OF o, of "chromeWith (QueryFailed (Some ''No window'')) (readyAt 2 100)"]
  note c = handler_responds_exactly_once [OF g, of "chromeWith (ActiveTabs [\<lparr>tabIdent = Some 7\<rparr>]) (readyAt 0 100)"]
  note d = handler_responds_exactly_once [OF g, of "chromeWith (ActiveTabs []) (readyAt 0 100)"]
  have hd_a: "hd (snd (onMessage (chromeWith (ActiveTabs [\<lparr>tabIdent = Some 7\<rparr>]) (readyAt 2 100)) ?open))
      = Succeeded"
    by (simp add: onMessage_def chromeWith_def openSidePanelForCurrentTab_def activeTabId_def)
  have hd_b: "hd (snd (onMessage (chromeWith (QueryFailed (Some ''No window'')) (readyAt 2 100)) ?open))
      = Failed (Some ''No window'')"
    by (simp add: onMessage_def chromeWith_def openSidePanelForCurrentTab_def)
  have hd_c: "hd (snd (onMessage (chromeWith (ActiveTabs [\<lparr>tabIdent = Some 7\<rparr>]) (readyAt 0 100)) ?get))
      = WithProblem sampleProblem"
    by (simp add: onMessage_def chromeWith_def activeTabId_def scrapeProblemFromTab_def
        scrapeLoop.simps [of _ _ _ _ _ 0] executeScrape_def readyAt_def)
  have hd_d: "hd (snd (onMessage (chromeWith (ActiveTabs []) (readyAt 0 100)) ?get))
      = Failed (Some ''No active tab detected.'')"
    by (simp add: onMessage_def chromeWith_def activeTabId_def)
  have one: "fst p = True \<and> length (snd p) = 1 \<Longrightarrow> hd (snd p) = r \<Longrightarrow> p = (True, [r])"
    for p :: "bool \<times> MessageResponse list" and r
    by (cases p; cases "snd p") auto
  from one [OF a hd_a] one [OF b hd_b] one [OF c hd_c] one [OF d hd_d] show ?thesis by simp
qed

end
